theory Spec2Isabelle
  imports Main
begin

section \<open>Bytecode-to-graph lowering of field access and array allocation (opto/parse3.cpp)\<close>

text \<open>
  The parser of parse3.cpp builds an IR graph by calling graph-construction primitives
  (GraphKit, PhaseGVN, the ci* metadata interface) that live in other files.  The embedding
  keeps the control flow of parse3.cpp as it is written and records every call of such a
  primitive, in program order, in the \<open>events\<close> of the parser state; the operand stack,
  the \<open>stopped\<close> flag, the current bci and the "wrote ..." flags are explicit state.
  Aborts of the virtual machine (a failed \<open>assert\<close> of a debug build, \<open>guarantee\<close>,
  \<open>ShouldNotReachHere\<close>, a bad cast, a read below the operand stack) are values of type
  \<open>error\<close>.

  Left out, because nothing here depends on them: the printing and logging of
  \<open>do_get_xxx\<close>; the stack pointer that \<open>PreserveReexecuteState\<close> and \<open>inc_sp\<close> raise for
  the allocations of \<open>do_multianewarray\<close> and restore at the end of their scope; the
  element type \<open>expand_multianewarray\<close> passes to \<open>store_oop_to_array\<close>; the control input
  of the stores and the load that \<open>insert_mem_bar\<close> takes as a precedent.  \<open>ciField::offset\<close>
  and \<open>ciField::offset_in_bytes\<close> are the same number.
\<close>

subsection \<open>Metadata supplied by the compiler interface\<close>

datatype BasicType =
    T_BOOLEAN | T_CHAR | T_FLOAT | T_DOUBLE | T_BYTE | T_SHORT | T_INT | T_LONG
  | T_OBJECT | T_ARRAY | T_VALUETYPE | T_VALUETYPEPTR

text \<open>Modelled from the spec: the table \<open>type2size\<close> (globalDefinitions) is not part of
  parse3.cpp; the spec speaks of single and double width per type: long and double take
  two stack slots, everything else one.\<close>

definition type2size :: "BasicType \<Rightarrow> nat" where
  "type2size bt = (if bt = T_DOUBLE \<or> bt = T_LONG then 2 else 1)"

datatype ciSymbol = class_initializer_name | object_initializer_name | other_name string

record ciInstanceKlass =
  klass_ident :: nat
  klass_supers :: "nat list"
  is_loaded :: bool
  is_initialized :: bool
  is_valuetype :: bool

text \<open>Modelled from the spec: \<open>ciKlass::is_subclass_of\<close> is declared in ciKlass.hpp.  A class
  is identified by \<open>klass_ident\<close> and lists the identities of its proper superclasses; the
  relation "the class or a subclass" of the spec is reflexive.\<close>

definition is_subclass_of :: "ciInstanceKlass \<Rightarrow> ciInstanceKlass \<Rightarrow> bool" where
  "is_subclass_of k that =
     (klass_ident k = klass_ident that \<or> klass_ident that \<in> set (klass_supers k))"

datatype ciKlass =
    Instance ciInstanceKlass
  | TypeArray BasicType
  | ObjArray bool ciKlass

text \<open>Modelled from the spec: the queries of ciKlass and ciArrayKlass used by parse3.cpp.
  \<open>ObjArray loaded elem\<close> is the array class of \<open>elem\<close> (object or value array).\<close>

fun klass_is_loaded :: "ciKlass \<Rightarrow> bool" where
  "klass_is_loaded (Instance ik) = is_loaded ik"
| "klass_is_loaded (TypeArray bt) = True"
| "klass_is_loaded (ObjArray l e) = l"

fun element_klass :: "ciKlass \<Rightarrow> ciKlass option" where
  "element_klass (ObjArray l e) = Some e"
| "element_klass k = None"

fun klass_is_valuetype :: "ciKlass \<Rightarrow> bool" where
  "klass_is_valuetype (Instance ik) = is_valuetype ik"
| "klass_is_valuetype k = False"

fun klass_is_initialized :: "ciKlass \<Rightarrow> bool" where
  "klass_is_initialized (Instance ik) = is_initialized ik"
| "klass_is_initialized k = True"

fun is_array_klass :: "ciKlass \<Rightarrow> bool" where
  "is_array_klass (Instance ik) = False"
| "is_array_klass k = True"

record ciType =
  type_ident :: nat
  type_is_loaded :: bool
  type_size :: nat

datatype ciObject = ciNullObject | ciInstance nat

fun is_null_object :: "ciObject \<Rightarrow> bool" where
  "is_null_object ciNullObject = True"
| "is_null_object (ciInstance i) = False"

record ciField =
  holder :: ciInstanceKlass
  field_type :: ciType
  layout_type :: BasicType
  offset_in_bytes :: int
  is_static :: bool
  is_volatile :: bool
  is_final :: bool
  is_stable :: bool
  is_constant :: bool
  is_static_constant :: bool
  constant_value :: ciObject
  is_flattened :: bool
  is_flattenable :: bool
  is_call_site_target :: bool
  will_link :: bool

record ciMethod =
  method_holder :: ciInstanceKlass
  method_is_static :: bool
  method_name :: ciSymbol

record ciBytecodeStream =
  get_field :: ciField
  get_field_will_link :: bool
  get_declared_field_holder :: ciInstanceKlass
  get_klass :: ciKlass
  get_klass_will_link :: bool
  get_dimensions :: nat
  cur_bci :: int
  next_bci :: int

subsection \<open>Types, nodes and recorded primitive calls\<close>

datatype PTR = Null | NotNull | BotPTR

type_synonym TypeInt = "int \<times> int"

text \<open>What the value-numbering phase knows about a value that reaches the parser from
  outside: an int range, the nullness of a pointer, or nothing.\<close>

datatype GvnType = IntType int int | PtrType PTR | OtherType

text \<open>Types are kept as the terms parse3.cpp builds them with; what the constructors of
  type.cpp compute from them is outside this file.\<close>

datatype Type =
    TypeInstPtr_BOTTOM
  | TypePtr_NULL_PTR
  | make_from_constant ciObject
  | make_from_klass ciType
  | join_speculative_NOTNULL Type
  | get_const_basic_type BasicType
  | make_from_klass_raw ciKlass
  | cast_to_ptr_type PTR Type
  | cast_to_exactness bool Type
  | cast_to_size TypeInt Type

datatype MemOrd = unordered | acquire | release

datatype MemBarOp = Op_MemBarVolatile | Op_MemBarAcquire | Op_MemBarRelease

datatype DeoptReason =
    Reason_unhandled | Reason_uninitialized | Reason_unloaded | Reason_null_check
  | Reason_speculate_null_check

datatype DeoptAction = Action_none | Action_reinterpret

datatype AdrType = alias_type ciField | TypeAryPtr_OOPS | TypeAryPtr_INTS

datatype RuntimeEntry =
    multianewarray2_Java | multianewarray3_Java | multianewarray4_Java
  | multianewarray5_Java | multianewarrayN_Java

text \<open>Nodes.  A node made by a primitive that depends on the memory or control state
  (a load, an allocation, a call) carries the number of events recorded before it, so two
  such nodes made at different moments differ.\<close>

datatype Node =
    top_node
  | null_node
  | intcon int
  | makecon_klass ciKlass
  | makecon_mirror ciInstanceKlass
  | Value nat GvnType
  | ValueTypeNode nat
  | field_value_by_offset Node int
  | RoundDoubleNode Node
  | CastPP_NotNull Node
  | AddPNode Node Node int
  | LoadNode nat Node Type BasicType AdrType MemOrd bool
  | FlattenedLoad nat ciType Node Node ciInstanceKlass int
  | AllocateArrayNode nat Node Node int
  | CallRuntimeNode nat RuntimeEntry "Node option list"
  | ProjNode Node
  | CheckCastPPNode Node Type
  | array_element_address Node Node BasicType

datatype event =
    E_uncommon_trap DeoptReason DeoptAction
  | E_insert_mem_bar MemBarOp
  | E_null_check Node
  | E_null_assert Node int
  | E_basic_plus_adr Node
  | E_make_load Node
  | E_make_from_flattened Node
  | E_store_oop_to_object Node Node AdrType Node Type BasicType MemOrd
  | E_store_flattened Node Node Node ciInstanceKlass int
  | E_store_to_memory Node Node BasicType AdrType MemOrd bool
  | E_store_oop_to_array Node Node AdrType Node BasicType MemOrd
  | E_kill_dead_locals
  | E_new_array Node
  | E_make_runtime_call Node
  | E_make_slow_call_ex Node
  | E_array_element_address Node

datatype error =
  AssertFailed | GuaranteeFailed | ShouldNotReachHere | StackUnderflow | BadCast | NullLength

subsection \<open>Build configuration, flags and oracles\<close>

record Config =
  ASSERT :: bool
  support_IRIW_for_not_multiple_copy_atomic_cpu :: bool
  AlwaysAtomicAccesses :: bool
  MultiArrayExpandLimit :: int
  make_constant_from_field :: "ciField \<Rightarrow> Node \<Rightarrow> Node option"
  mirror_field_value :: "ciField \<Rightarrow> ciObject"
  Ideal_allocation :: "Node \<Rightarrow> bool"
  array_klass_is_loaded :: "ciKlass \<Rightarrow> bool"
  higher_equal_NotNull :: "Node \<Rightarrow> ciInstanceKlass \<Rightarrow> bool"
  base_offset_in_bytes_T_OBJECT :: int
  LogBytesPerHeapOop :: nat

text \<open>An \<open>assert\<close> is compiled into debug builds only.\<close>

definition assert_that :: "Config \<Rightarrow> bool \<Rightarrow> bool" where
  "assert_that cfg c = (c \<or> \<not> ASSERT cfg)"

text \<open>Modelled from the spec: \<open>ciArrayKlass::make\<close> is in ciArrayKlass.cpp; it gives the array
  class of an element class, and whether that class is loaded is a fact of the running
  virtual machine.\<close>

definition ciArrayKlass_make :: "Config \<Rightarrow> ciKlass \<Rightarrow> ciKlass" where
  "ciArrayKlass_make cfg k = ObjArray (array_klass_is_loaded cfg k) k"

subsection \<open>Parser state and the primitives of GraphKit\<close>

record Parse =
  stack :: "Node list"
  events :: "event list"
  stopped :: bool
  bci :: int
  wrote_volatile :: bool
  wrote_fields :: bool
  wrote_final :: bool
  wrote_stable :: bool
  alloc_with_final :: "Node option"
  parse_method :: ciMethod
  parse_iter :: ciBytecodeStream

definition emit :: "event \<Rightarrow> Parse \<Rightarrow> Parse" where
  "emit e p = p\<lparr>events := events p @ [e]\<rparr>"

text \<open>Modelled from the spec: the abstract stack (push, pop, push/pop-pair for double width,
  peek at depth) is GraphKit's; the second half of a double-width value is \<open>top\<close> and lies
  above the value.\<close>

definition push :: "Node \<Rightarrow> Parse \<Rightarrow> Parse" where
  "push n p = p\<lparr>stack := n # stack p\<rparr>"

definition push_pair :: "Node \<Rightarrow> Parse \<Rightarrow> Parse" where
  "push_pair n p = push top_node (push n p)"

definition push_node :: "BasicType \<Rightarrow> Node \<Rightarrow> Parse \<Rightarrow> Parse" where
  "push_node bt n p = (if type2size bt = 1 then push n p else push_pair n p)"

definition pop :: "Parse \<Rightarrow> error + (Node \<times> Parse)" where
  "pop p = (case stack p of [] \<Rightarrow> Inl StackUnderflow
            | n # ns \<Rightarrow> Inr (n, p\<lparr>stack := ns\<rparr>))"

definition pop_pair :: "Config \<Rightarrow> Parse \<Rightarrow> error + (Node \<times> Parse)" where
  "pop_pair cfg p =
     (case pop p of Inl e \<Rightarrow> Inl e
      | Inr (halfword, p1) \<Rightarrow>
          if \<not> assert_that cfg (halfword = top_node) then Inl AssertFailed else pop p1)"

definition peek :: "nat \<Rightarrow> Parse \<Rightarrow> error + Node" where
  "peek d p = (if d < length (stack p) then Inr (stack p ! d) else Inl StackUnderflow)"

text \<open>Modelled from the spec: \<open>_gvn.type\<close>, \<open>find_int_con\<close> and \<open>find_int_type\<close> belong to the
  type lattice engine.  A constant has its singleton type, a value from outside has the
  type it came with, a null-checked pointer is not null.\<close>

fun gvn_type :: "Node \<Rightarrow> GvnType" where
  "gvn_type (intcon c) = IntType c c"
| "gvn_type null_node = PtrType Null"
| "gvn_type (Value i t) = t"
| "gvn_type (CastPP_NotNull n) = PtrType NotNull"
| "gvn_type n = OtherType"

definition find_int_con :: "Node \<Rightarrow> int \<Rightarrow> int" where
  "find_int_con n dflt =
     (case gvn_type n of IntType lo hi \<Rightarrow> (if lo = hi then lo else dflt) | _ \<Rightarrow> dflt)"

definition find_int_type :: "Node \<Rightarrow> TypeInt option" where
  "find_int_type n = (case gvn_type n of IntType lo hi \<Rightarrow> Some (lo, hi) | _ \<Rightarrow> None)"

fun is_ValueType :: "Node \<Rightarrow> bool" where
  "is_ValueType (ValueTypeNode i) = True"
| "is_ValueType n = False"

text \<open>Modelled from the spec: trap emission (reason, recovery action) marks the path
  terminated.\<close>

definition uncommon_trap :: "DeoptReason \<Rightarrow> DeoptAction \<Rightarrow> Parse \<Rightarrow> Parse" where
  "uncommon_trap reason action p = (emit (E_uncommon_trap reason action) p)\<lparr>stopped := True\<rparr>"

text \<open>Modelled from the spec: \<open>null_check\<close> is GraphKit's.  A value that is provably null
  terminates the path; a value that is provably not null is returned as it is; any other
  value is returned cast to not-null.\<close>

definition null_check :: "Node \<Rightarrow> Parse \<Rightarrow> Node \<times> Parse" where
  "null_check n p =
     (let p1 = emit (E_null_check n) p
      in case gvn_type n of
           PtrType Null \<Rightarrow> (top_node, p1\<lparr>stopped := True\<rparr>)
         | PtrType NotNull \<Rightarrow> (n, p1)
         | _ \<Rightarrow> (CastPP_NotNull n, p1))"

text \<open>Modelled from the spec: \<open>null_assert\<close> is GraphKit's; it speculates that the value is
  null and traps, at the bci of the state it is called in, when a non-null value is seen.
  A value that is provably not null always traps.\<close>

definition null_assert :: "Node \<Rightarrow> Parse \<Rightarrow> Parse" where
  "null_assert n p =
     (let p1 = emit (E_null_assert n (bci p)) p
      in if gvn_type n = PtrType NotNull then p1\<lparr>stopped := True\<rparr> else p1)"

text \<open>Modelled from the spec: barrier insertion, address computation, the emission of loads
  and stores, allocation and runtime calls are graph primitives of GraphKit.  Each is
  recorded with its arguments and returns the node it makes.\<close>

definition insert_mem_bar :: "MemBarOp \<Rightarrow> Parse \<Rightarrow> Parse" where
  "insert_mem_bar opc p = emit (E_insert_mem_bar opc) p"

definition basic_plus_adr :: "Node \<Rightarrow> Node \<Rightarrow> int \<Rightarrow> Parse \<Rightarrow> Node \<times> Parse" where
  "basic_plus_adr base ptr off p =
     (let adr = AddPNode base ptr off in (adr, emit (E_basic_plus_adr adr) p))"

definition make_load ::
  "Node \<Rightarrow> Type \<Rightarrow> BasicType \<Rightarrow> AdrType \<Rightarrow> MemOrd \<Rightarrow> bool \<Rightarrow> Parse \<Rightarrow> Node \<times> Parse" where
  "make_load adr t bt adr_type mo needs_atomic p =
     (let ld = LoadNode (length (events p)) adr t bt adr_type mo needs_atomic
      in (ld, emit (E_make_load ld) p))"

definition make_from_flattened ::
  "ciType \<Rightarrow> Node \<Rightarrow> Node \<Rightarrow> ciInstanceKlass \<Rightarrow> int \<Rightarrow> Parse \<Rightarrow> Node \<times> Parse" where
  "make_from_flattened vk obj ptr hold off p =
     (let ld = FlattenedLoad (length (events p)) vk obj ptr hold off
      in (ld, emit (E_make_from_flattened ld) p))"

definition set_bci :: "int \<Rightarrow> Parse \<Rightarrow> Parse" where
  "set_bci b p = p\<lparr>bci := b\<rparr>"

text \<open>Modelled from the spec: \<open>dstore_rounding\<close> is GraphKit's; it rounds a double to its
  canonical form.  Nodes are structurally unified and a rounding of a rounded value is
  that value, so rounding is idempotent.\<close>

fun dstore_rounding :: "Node \<Rightarrow> Node" where
  "dstore_rounding (RoundDoubleNode n) = RoundDoubleNode n"
| "dstore_rounding n = RoundDoubleNode n"

text \<open>Modelled from the spec: \<open>StoreNode::release_if_reference\<close> is in memnode.hpp; a store is
  releasing when what is stored is a reference (publication safety), unordered otherwise.
  What is stored is a reference for an object, an array and a value type: a value type
  that is not flattened is held behind a reference, and the store of a flattened one
  takes no ordering.\<close>

definition is_reference :: "BasicType \<Rightarrow> bool" where
  "is_reference bt = (bt = T_OBJECT \<or> bt = T_ARRAY \<or> bt = T_VALUETYPE \<or> bt = T_VALUETYPEPTR)"

definition release_if_reference :: "BasicType \<Rightarrow> MemOrd" where
  "release_if_reference bt = (if is_reference bt then release else unordered)"

definition store_oop_to_object ::
  "Node \<Rightarrow> Node \<Rightarrow> AdrType \<Rightarrow> Node \<Rightarrow> Type \<Rightarrow> BasicType \<Rightarrow> MemOrd \<Rightarrow> Parse \<Rightarrow> Parse" where
  "store_oop_to_object obj adr adr_type val t bt mo p =
     emit (E_store_oop_to_object obj adr adr_type val t bt mo) p"

definition store_to_memory ::
  "Node \<Rightarrow> Node \<Rightarrow> BasicType \<Rightarrow> AdrType \<Rightarrow> MemOrd \<Rightarrow> bool \<Rightarrow> Parse \<Rightarrow> Parse" where
  "store_to_memory adr val bt adr_type mo needs_atomic p =
     emit (E_store_to_memory adr val bt adr_type mo needs_atomic) p"

definition store_flattened ::
  "Node \<Rightarrow> Node \<Rightarrow> Node \<Rightarrow> ciInstanceKlass \<Rightarrow> int \<Rightarrow> Parse \<Rightarrow> Parse" where
  "store_flattened val obj ptr hold off p = emit (E_store_flattened val obj ptr hold off) p"

text \<open>Modelled from the spec: \<open>Deoptimization::reason_null_check\<close> is in deoptimization.hpp;
  it names the reason of a null-check trap, or of a speculative one.\<close>

definition reason_null_check :: "bool \<Rightarrow> DeoptReason" where
  "reason_null_check speculative =
     (if speculative then Reason_speculate_null_check else Reason_null_check)"

subsection \<open>Helper methods for the get and put bytecodes\<close>

definition static_field_ok_in_clinit :: "Config \<Rightarrow> ciField \<Rightarrow> ciMethod \<Rightarrow> error + bool" where
  "static_field_ok_in_clinit cfg field method =
     (if \<not> assert_that cfg (is_static field) then Inl AssertFailed
      else
        let field_holder = holder field;
            access_OK =
              (if is_subclass_of (method_holder method) field_holder then
                 (if method_is_static method then
                    (if method_name method = class_initializer_name then True else False)
                  else
                    (if method_name method = object_initializer_name then True else False))
               else False)
        in Inr access_OK)"

text \<open>The resultant type of the load and whether the loaded value must be asserted null
  (\<open>do_get_xxx\<close>, "Build the resultant type of the load").\<close>

definition field_load_type :: "Config \<Rightarrow> ciField \<Rightarrow> error + (Type \<times> bool)" where
  "field_load_type cfg field =
     (let bt = layout_type field;
          field_klass = field_type field;
          flattened = is_flattened field
      in if bt = T_OBJECT \<or> bt = T_VALUETYPE then
           (if \<not> type_is_loaded (field_type field) then Inr (TypeInstPtr_BOTTOM, True)
            else if is_static_constant field then
              (let c = constant_value field
               in Inr (if is_null_object c then TypePtr_NULL_PTR else make_from_constant c, False))
            else if bt = T_VALUETYPE \<and> is_static field then
              (if \<not> assert_that cfg (\<not> flattened) then Inl AssertFailed
               else
                 let val = mirror_field_value cfg field
                 in Inr (if \<not> is_null_object val
                         then join_speculative_NOTNULL (make_from_klass field_klass)
                         else make_from_klass field_klass, False))
            else Inr (make_from_klass field_klass, False))
         else Inr (get_const_basic_type bt, False))"

text \<open>The deferred assertion of \<open>do_get_xxx\<close>: "If there is going to be a trap, put it at
  the next bytecode", then "put it back".\<close>

definition assert_null_at_next_bci :: "Parse \<Rightarrow> error + Parse" where
  "assert_null_at_next_bci p =
     (let p1 = set_bci (next_bci (parse_iter p)) p
      in case peek 0 p1 of
           Inl e \<Rightarrow> Inl e
         | Inr n \<Rightarrow> Inr (set_bci (cur_bci (parse_iter p1)) (null_assert n p1)))"

definition do_get_xxx :: "Config \<Rightarrow> Node \<Rightarrow> ciField \<Rightarrow> bool \<Rightarrow> Parse \<Rightarrow> error + Parse" where
  "do_get_xxx cfg obj field is_field p =
     (let bt = layout_type field;
          con = (if is_constant field \<and> (bt \<noteq> T_OBJECT \<or> type_is_loaded (field_type field))
                 then make_constant_from_field cfg field obj else None)
      in case con of
           Some c \<Rightarrow> Inr (push_node (layout_type field) c p)
         | None \<Rightarrow>
            (let field_klass = field_type field;
                 is_vol = is_volatile field;
                 flattened = is_flattened field;
                 flattenable = is_flattenable field;
                 offset = offset_in_bytes field;
                 adr_type = alias_type field;
                 (adr, p1) = basic_plus_adr obj obj offset p
             in case field_load_type cfg field of
                  Inl e \<Rightarrow> Inl e
                | Inr (type, must_assert_null) \<Rightarrow>
                   (let p2 = (if support_IRIW_for_not_multiple_copy_atomic_cpu cfg \<and> is_volatile field
                              then insert_mem_bar Op_MemBarVolatile p1 else p1);
                        mo = (if is_vol then acquire else unordered);
                        needs_atomic_access = (is_vol \<or> AlwaysAtomicAccesses cfg);
                        bt2 = (if \<not> flattened \<and> bt = T_VALUETYPE \<and> \<not> flattenable
                               then T_VALUETYPEPTR else bt);
                        (ld, p3) =
                          (if flattened
                           then make_from_flattened field_klass obj obj (holder field) offset p2
                           else make_load adr type bt2 adr_type mo needs_atomic_access p2);
                        p4 = (if type2size bt2 = 1 then push ld p3 else push_pair ld p3)
                    in case (if must_assert_null then assert_null_at_next_bci p4 else Inr p4) of
                         Inl e \<Rightarrow> Inl e
                       | Inr p5 \<Rightarrow>
                           Inr (if is_volatile field then insert_mem_bar Op_MemBarAcquire p5
                                else p5))))"

text \<open>The flags \<open>do_put_xxx\<close> records after the store: "wrote fields", "wrote final",
  "wrote stable" and the allocation a final field was written to.\<close>

definition note_field_write :: "Config \<Rightarrow> Node \<Rightarrow> ciField \<Rightarrow> bool \<Rightarrow> Parse \<Rightarrow> Parse" where
  "note_field_write cfg obj field is_field p =
     (let p1 = (if is_field then p\<lparr>wrote_fields := True\<rparr> else p)
      in if is_field \<and> (is_final field \<or> is_stable field) then
           (let q1 = (if is_final field then p1\<lparr>wrote_final := True\<rparr> else p1);
                q2 = (if is_stable field then q1\<lparr>wrote_stable := True\<rparr> else q1)
            in if is_final field \<and> Ideal_allocation cfg obj
               then q2\<lparr>alloc_with_final := Some obj\<rparr> else q2)
         else p1)"

text \<open>The barrier \<open>do_put_xxx\<close> inserts after a volatile store, and the "wrote volatile"
  flag.\<close>

definition after_volatile_store :: "Config \<Rightarrow> bool \<Rightarrow> Parse \<Rightarrow> Parse" where
  "after_volatile_store cfg is_field p =
     (let q = (if \<not> support_IRIW_for_not_multiple_copy_atomic_cpu cfg
               then insert_mem_bar Op_MemBarVolatile p else p)
      in if is_field then q\<lparr>wrote_volatile := True\<rparr> else q)"

definition do_put_xxx :: "Config \<Rightarrow> Node \<Rightarrow> ciField \<Rightarrow> bool \<Rightarrow> Parse \<Rightarrow> error + Parse" where
  "do_put_xxx cfg obj field is_field p =
     (let is_vol = is_volatile field;
          is_flat = is_flattened field;
          p1 = (if is_vol then insert_mem_bar Op_MemBarRelease p else p);
          offset = offset_in_bytes field;
          adr_type = alias_type field;
          (adr, p2) = basic_plus_adr obj obj offset p1;
          bt = layout_type field
      in case (if type2size bt = 1 then pop p2 else pop_pair cfg p2) of
           Inl e \<Rightarrow> Inl e
         | Inr (val0, p3) \<Rightarrow>
            (let val = (if bt = T_DOUBLE then dstore_rounding val0 else val0);
                 mo = (if is_vol then release else release_if_reference bt);
                 field_type1 = (if \<not> type_is_loaded (field_type field) then TypeInstPtr_BOTTOM
                                else make_from_klass (field_type field))
             in if (bt = T_OBJECT \<or> bt = T_VALUETYPE) \<and> is_flattenable field \<and> \<not> is_ValueType val
                then
                  (if \<not> assert_that cfg (gvn_type val = PtrType Null) then Inl AssertFailed
                   else
                     let p4 = uncommon_trap (reason_null_check False) Action_none (push null_node p3)
                     in if \<not> assert_that cfg (stopped p4) then Inl AssertFailed else Inr p4)
                else
                  case (if bt = T_OBJECT \<or> bt = T_VALUETYPE then
                          (if is_flat then
                             (if \<not> assert_that cfg (bt = T_VALUETYPE) then Inl AssertFailed
                              else if \<not> is_ValueType val then Inl BadCast
                              else Inr (store_flattened val obj obj (holder field) offset p3))
                           else Inr (store_oop_to_object obj adr adr_type val field_type1 bt mo p3))
                        else
                          (let needs_atomic_access = (is_vol \<or> AlwaysAtomicAccesses cfg)
                           in Inr (store_to_memory adr val bt adr_type mo needs_atomic_access p3))) of
                    Inl e \<Rightarrow> Inl e
                  | Inr p4 \<Rightarrow>
                     (let p5 = (if is_vol then after_volatile_store cfg is_field p4 else p4)
                      in Inr (note_field_write cfg obj field is_field p5))))"

definition do_field_access :: "Config \<Rightarrow> bool \<Rightarrow> bool \<Rightarrow> Parse \<Rightarrow> error + Parse" where
  "do_field_access cfg is_get is_field p =
     (let field = get_field (parse_iter p)
      in if \<not> assert_that cfg (get_field_will_link (parse_iter p)) then Inl AssertFailed
         else
           let field_holder = holder field
           in if is_field \<and> is_valuetype field_holder then
                (if \<not> assert_that cfg is_get then Inl AssertFailed
                 else
                   let bt = layout_type field
                   in case pop p of
                        Inl e \<Rightarrow> Inl e
                      | Inr (vt, p1) \<Rightarrow>
                          if \<not> is_ValueType vt then Inl BadCast
                          else Inr (push_node bt (field_value_by_offset vt (offset_in_bytes field)) p1))
              else if is_field = is_static field then
                Inr (uncommon_trap Reason_unhandled Action_none p)
              else
                case (if \<not> is_field \<and> \<not> is_initialized field_holder
                      then static_field_ok_in_clinit cfg field (parse_method p)
                      else Inr True) of
                  Inl e \<Rightarrow> Inl e
                | Inr ok \<Rightarrow>
                    if \<not> ok then Inr (uncommon_trap Reason_uninitialized Action_reinterpret p)
                    else if \<not> is_get \<and> is_call_site_target field then
                      Inr (uncommon_trap Reason_unhandled Action_reinterpret p)
                    else if \<not> assert_that cfg (will_link field) then Inl AssertFailed
                    else if is_field then
                      (let obj_depth = (if is_get then 0 else type_size (field_type field))
                       in case peek obj_depth p of
                            Inl e \<Rightarrow> Inl e
                          | Inr receiver \<Rightarrow>
                             (let (obj, p1) = null_check receiver p
                              in if stopped p1 then Inr p1
                                 else if \<not> assert_that cfg
                                           (higher_equal_NotNull cfg obj
                                              (get_declared_field_holder (parse_iter p1)))
                                 then Inl AssertFailed
                                 else if is_get then
                                   (case pop p1 of
                                      Inl e \<Rightarrow> Inl e
                                    | Inr (r, p2) \<Rightarrow> do_get_xxx cfg obj field is_field p2)
                                 else
                                   (case do_put_xxx cfg obj field is_field p1 of
                                      Inl e \<Rightarrow> Inl e
                                    | Inr p2 \<Rightarrow>
                                        if stopped p2 then Inr p2
                                        else (case pop p2 of
                                                Inl e \<Rightarrow> Inl e
                                              | Inr (r, p3) \<Rightarrow> Inr p3))))
                    else
                      (let obj = makecon_mirror field_holder
                       in if is_get then do_get_xxx cfg obj field is_field p
                          else do_put_xxx cfg obj field is_field p))"

subsection \<open>Array allocation\<close>

definition kill_dead_locals :: "Parse \<Rightarrow> Parse" where
  "kill_dead_locals p = emit E_kill_dead_locals p"

definition new_array :: "Node \<Rightarrow> Node \<Rightarrow> int \<Rightarrow> Parse \<Rightarrow> Node \<times> Parse" where
  "new_array klass_node len nargs p =
     (let a = AllocateArrayNode (length (events p)) klass_node len nargs
      in (a, emit (E_new_array a) p))"

definition store_oop_to_array ::
  "Node \<Rightarrow> Node \<Rightarrow> AdrType \<Rightarrow> Node \<Rightarrow> BasicType \<Rightarrow> MemOrd \<Rightarrow> Parse \<Rightarrow> Parse" where
  "store_oop_to_array ary adr adr_type val bt mo p =
     emit (E_store_oop_to_array ary adr adr_type val bt mo) p"

definition make_runtime_call :: "RuntimeEntry \<Rightarrow> Node option list \<Rightarrow> Parse \<Rightarrow> Node \<times> Parse" where
  "make_runtime_call entry args p =
     (let c = CallRuntimeNode (length (events p)) entry args
      in (c, emit (E_make_runtime_call c) p))"

definition make_slow_call_ex :: "Node \<Rightarrow> Parse \<Rightarrow> Parse" where
  "make_slow_call_ex c p = emit (E_make_slow_call_ex c) p"

definition do_newarray :: "Config \<Rightarrow> Parse \<Rightarrow> error + Parse" where
  "do_newarray cfg p =
     (let klass = get_klass (parse_iter p)
      in if \<not> assert_that cfg (get_klass_will_link (parse_iter p)) then Inl AssertFailed
         else
           let array_klass = ciArrayKlass_make cfg klass
           in if \<not> klass_is_loaded array_klass then
                Inr (uncommon_trap Reason_unloaded Action_reinterpret p)
              else if (case element_klass array_klass of
                         None \<Rightarrow> False
                       | Some ek \<Rightarrow> klass_is_valuetype ek \<and> \<not> klass_is_initialized ek) then
                Inr (uncommon_trap Reason_uninitialized Action_reinterpret p)
              else
                let p1 = kill_dead_locals p
                in case pop p1 of
                     Inl e \<Rightarrow> Inl e
                   | Inr (count_val, p2) \<Rightarrow>
                       (let (obj, p3) = new_array (makecon_klass array_klass) count_val 1 p2
                        in Inr (push obj p3)))"

definition do_newarray_prim :: "BasicType \<Rightarrow> Parse \<Rightarrow> error + Parse" where
  "do_newarray_prim elem_type p =
     (let p1 = kill_dead_locals p
      in case pop p1 of
           Inl e \<Rightarrow> Inl e
         | Inr (count_val, p2) \<Rightarrow>
             (let (obj, p3) = new_array (makecon_klass (TypeArray elem_type)) count_val 1 p2
              in Inr (push obj p3)))"

text \<open>The arithmetic of \<open>int\<close> is that of 32-bit two's complement.\<close>

definition jint_wrap :: "int \<Rightarrow> int" where
  "jint_wrap x = (x + 2147483648) mod 4294967296 - 2147483648"

text \<open>\<open>expand_multianewarray\<close> with its loop over the \<open>length_con\<close> elements of the array just
  allocated.  \<open>lengths\<close> is the rest of the length array, which ends with a null entry.\<close>

function expand_multianewarray ::
    "Config \<Rightarrow> ciKlass \<Rightarrow> Node option list \<Rightarrow> nat \<Rightarrow> int \<Rightarrow> Parse \<Rightarrow> error + (Node \<times> Parse)"
  and expand_elems ::
    "Config \<Rightarrow> ciKlass \<Rightarrow> Node option list \<Rightarrow> nat \<Rightarrow> int \<Rightarrow> Node \<Rightarrow> int \<Rightarrow> int \<Rightarrow> Parse
       \<Rightarrow> error + Parse"
where
  "expand_multianewarray cfg array_klass lengths ndimensions nargs p =
     (case lengths of
        [] \<Rightarrow> Inl NullLength
      | None # rest \<Rightarrow> Inl NullLength
      | Some len # rest \<Rightarrow>
         (let (array, p1) = new_array (makecon_klass array_klass) len nargs p
          in if ndimensions > 1 then
               (let length_con = find_int_con len (- 1)
                in if \<not> (length_con \<ge> 0) then Inl GuaranteeFailed
                   else
                     (case element_klass array_klass of
                        None \<Rightarrow> Inl BadCast
                      | Some array_klass_1 \<Rightarrow>
                          if \<not> is_array_klass array_klass_1 then Inl BadCast
                          else
                            (case expand_elems cfg array_klass_1 rest (ndimensions - 1) nargs
                                    array 0 length_con p1 of
                               Inl e \<Rightarrow> Inl e
                             | Inr p2 \<Rightarrow> Inr (array, p2))))
             else Inr (array, p1)))"
| "expand_elems cfg array_klass_1 lengths ndimensions_1 nargs array i length_con p =
     (if i < length_con then
        (case expand_multianewarray cfg array_klass_1 lengths ndimensions_1 nargs p of
           Inl e \<Rightarrow> Inl e
         | Inr (elem, p1) \<Rightarrow>
            (let offset = base_offset_in_bytes_T_OBJECT cfg + i * 2 ^ LogBytesPerHeapOop cfg;
                 (eaddr, p2) = basic_plus_adr array array offset p1;
                 p3 = store_oop_to_array array eaddr TypeAryPtr_OOPS elem T_OBJECT unordered p2
             in expand_elems cfg array_klass_1 lengths ndimensions_1 nargs array (i + 1)
                  length_con p3))
      else Inr p)"
  by pat_completeness auto
termination
  by (relation "measures
        [\<lambda>x. case x of Inl (cfg, k, ls, nd, nargs, p) \<Rightarrow> nd
                     | Inr (cfg, k, ls, nd, nargs, a, i, n, p) \<Rightarrow> nd,
         \<lambda>x. case x of Inl (cfg, k, ls, nd, nargs, p) \<Rightarrow> 0
                     | Inr (cfg, k, ls, nd, nargs, a, i, n, p) \<Rightarrow> Suc (nat (n - i))]")
     auto

declare expand_multianewarray.simps [simp del] expand_elems.simps [simp del]

fun pop_lengths :: "nat \<Rightarrow> Parse \<Rightarrow> error + (Node list \<times> Parse)" where
  "pop_lengths 0 p = Inr ([], p)"
| "pop_lengths (Suc j) p =
     (case pop p of
        Inl e \<Rightarrow> Inl e
      | Inr (n, p1) \<Rightarrow>
          (case pop_lengths j p1 of
             Inl e \<Rightarrow> Inl e
           | Inr (ls, p2) \<Rightarrow> Inr (ls @ [n], p2)))"

text \<open>The loop of \<open>do_multianewarray\<close> that counts the allocations of an expansion; it runs
  over the lengths of all dimensions but the last and yields the final \<open>expand_count\<close>.\<close>

fun count_expansion :: "int \<Rightarrow> Node list \<Rightarrow> int \<Rightarrow> int \<Rightarrow> int" where
  "count_expansion expand_limit [] expand_fanout expand_count = expand_count"
| "count_expansion expand_limit (len # ls) expand_fanout expand_count =
     (let dim_con = find_int_con len (- 1);
          expand_fanout1 = jint_wrap (expand_fanout * dim_con);
          expand_count1 = jint_wrap (expand_count + expand_fanout1)
      in if dim_con \<le> 0 \<or> dim_con > expand_limit \<or> expand_count1 > expand_limit then 0
         else count_expansion expand_limit ls expand_fanout1 expand_count1)"

fun fill_dims :: "Node \<Rightarrow> Node list \<Rightarrow> int \<Rightarrow> Parse \<Rightarrow> Parse" where
  "fill_dims dims [] j p = p"
| "fill_dims dims (len # ls) j p =
     (let dims_elem = array_element_address dims (intcon j) T_INT;
          p1 = emit (E_array_element_address dims_elem) p;
          p2 = store_to_memory dims_elem len T_INT TypeAryPtr_INTS unordered False p1
      in fill_dims dims ls (j + 1) p2)"

definition do_multianewarray :: "Config \<Rightarrow> Parse \<Rightarrow> error + Parse" where
  "do_multianewarray cfg p =
     (let ndimensions = get_dimensions (parse_iter p);
          array_klass = get_klass (parse_iter p)
      in if \<not> is_array_klass array_klass then Inl BadCast
         else if \<not> assert_that cfg (get_klass_will_link (parse_iter p)) then Inl AssertFailed
         else
           let p1 = kill_dead_locals p
           in case pop_lengths ndimensions p1 of
                Inl e \<Rightarrow> Inl e
              | Inr (lens, p2) \<Rightarrow>
                 (let len = map Some lens @ [None];
                      expand_limit = min (jint_wrap (MultiArrayExpandLimit cfg)) 100;
                      expand_count = count_expansion expand_limit (take (ndimensions - 1) lens) 1 1
                  in if ndimensions = 1 \<or> (1 \<le> expand_count \<and> expand_count \<le> expand_limit) then
                       (case expand_multianewarray cfg array_klass len ndimensions 0 p2 of
                          Inl e \<Rightarrow> Inl e
                        | Inr (obj, p3) \<Rightarrow> Inr (push obj p3))
                     else if ndimensions = 1 then Inl ShouldNotReachHere
                     else
                       let fun_entry =
                             (if ndimensions = 2 then Some multianewarray2_Java
                              else if ndimensions = 3 then Some multianewarray3_Java
                              else if ndimensions = 4 then Some multianewarray4_Java
                              else if ndimensions = 5 then Some multianewarray5_Java
                              else None);
                           (c, p3) =
                             (case fun_entry of
                                Some entry \<Rightarrow>
                                  make_runtime_call entry
                                    [Some (makecon_klass array_klass), len ! 0, len ! 1, len ! 2,
                                     (if ndimensions > 2 then len ! 3 else None),
                                     (if ndimensions > 3 then len ! 4 else None)] p2
                              | None \<Rightarrow>
                                 (let dims_array_klass = makecon_klass (TypeArray T_INT);
                                      (dims, q1) = new_array dims_array_klass
                                                     (intcon (int ndimensions)) 0 p2;
                                      q2 = fill_dims dims lens 0 q1
                                  in make_runtime_call multianewarrayN_Java
                                       [Some (makecon_klass array_klass), Some dims] q2));
                           p4 = make_slow_call_ex c p3;
                           res = ProjNode c;
                           type0 = make_from_klass_raw array_klass;
                           type1 = cast_to_ptr_type NotNull type0;
                           type2 = cast_to_exactness True type1;
                           type3 = (case find_int_type (lens ! 0) of
                                      None \<Rightarrow> type2
                                    | Some ltype \<Rightarrow> cast_to_size ltype type2);
                           cast = CheckCastPPNode res type3
                       in Inr (push cast p4)))"

section \<open>Observations on a parse step\<close>

text \<open>The events a step from \<open>p\<close> to \<open>p'\<close> has recorded.\<close>

definition emitted :: "Parse \<Rightarrow> Parse \<Rightarrow> event list" where
  "emitted p p' = drop (length (events p)) (events p')"

fun is_load :: "event \<Rightarrow> bool" where
  "is_load (E_make_load n) = True"
| "is_load (E_make_from_flattened n) = True"
| "is_load e = False"

fun is_store :: "event \<Rightarrow> bool" where
  "is_store (E_store_oop_to_object obj adr at v t bt mo) = True"
| "is_store (E_store_flattened v obj ptr h off) = True"
| "is_store (E_store_to_memory adr v bt at mo a) = True"
| "is_store (E_store_oop_to_array ary adr at v bt mo) = True"
| "is_store e = False"

fun is_allocation :: "event \<Rightarrow> bool" where
  "is_allocation (E_new_array n) = True"
| "is_allocation (E_make_runtime_call n) = True"
| "is_allocation e = False"

text \<open>A configuration, a class, a field, a method and a parser state to evaluate on.\<close>

definition example_config :: Config where
  "example_config =
     \<lparr>ASSERT = True, support_IRIW_for_not_multiple_copy_atomic_cpu = False,
      AlwaysAtomicAccesses = False, MultiArrayExpandLimit = 6,
      make_constant_from_field = (\<lambda>f n. None), mirror_field_value = (\<lambda>f. ciNullObject),
      Ideal_allocation = (\<lambda>n. False), array_klass_is_loaded = (\<lambda>k. True),
      higher_equal_NotNull = (\<lambda>n k. True), base_offset_in_bytes_T_OBJECT = 16,
      LogBytesPerHeapOop = 2\<rparr>"

definition example_klass :: ciInstanceKlass where
  "example_klass =
     \<lparr>klass_ident = 1, klass_supers = [0], is_loaded = True, is_initialized = True,
      is_valuetype = False\<rparr>"

definition example_field :: ciField where
  "example_field =
     \<lparr>holder = example_klass,
      field_type = \<lparr>type_ident = 7, type_is_loaded = True, type_size = 1\<rparr>,
      layout_type = T_INT, offset_in_bytes = 12, is_static = False, is_volatile = False,
      is_final = False, is_stable = False, is_constant = False, is_static_constant = False,
      constant_value = ciNullObject, is_flattened = False, is_flattenable = False,
      is_call_site_target = False, will_link = True\<rparr>"

definition example_method :: ciMethod where
  "example_method =
     \<lparr>method_holder = example_klass, method_is_static = False, method_name = other_name ''run''\<rparr>"

definition example_iter :: ciBytecodeStream where
  "example_iter =
     \<lparr>get_field = example_field, get_field_will_link = True,
      get_declared_field_holder = example_klass, get_klass = Instance example_klass,
      get_klass_will_link = True, get_dimensions = 2, cur_bci = 10, next_bci = 13\<rparr>"

definition example_parse :: Parse where
  "example_parse =
     \<lparr>stack = [Value 1 (IntType 0 100), Value 2 (PtrType BotPTR)], events = [],
      stopped = False, bci = 10, wrote_volatile = False, wrote_fields = False,
      wrote_final = False, wrote_stable = False, alloc_with_final = None,
      parse_method = example_method, parse_iter = example_iter\<rparr>"

definition unloaded_array_config :: Config where
  "unloaded_array_config = example_config\<lparr>array_klass_is_loaded := (\<lambda>k. False)\<rparr>"

definition uninitialized_value_klass :: ciInstanceKlass where
  "uninitialized_value_klass =
     \<lparr>klass_ident = 5, klass_supers = [0], is_loaded = True, is_initialized = False,
      is_valuetype = True\<rparr>"

definition value_array_parse :: Parse where
  "value_array_parse =
     example_parse\<lparr>parse_iter := example_iter\<lparr>get_klass := Instance uninitialized_value_klass\<rparr>\<rparr>"

fun is_trap :: "event \<Rightarrow> bool" where
  "is_trap (E_uncommon_trap r a) = True"
| "is_trap e = False"

text \<open>A step traps for an uninitialized class; and it does so without any load or store.\<close>

definition traps_uninitialized :: "Parse \<Rightarrow> error + Parse \<Rightarrow> bool" where
  "traps_uninitialized p r =
     (case r of Inl e \<Rightarrow> False
      | Inr p' \<Rightarrow> E_uncommon_trap Reason_uninitialized Action_reinterpret \<in> set (emitted p p'))"

definition traps_uninitialized_without_access :: "Parse \<Rightarrow> error + Parse \<Rightarrow> bool" where
  "traps_uninitialized_without_access p r =
     (case r of Inl e \<Rightarrow> False
      | Inr p' \<Rightarrow> E_uncommon_trap Reason_uninitialized Action_reinterpret \<in> set (emitted p p')
                 \<and> \<not> list_ex is_load (emitted p p') \<and> \<not> list_ex is_store (emitted p p'))"

text \<open>The relation between the accessing method and the accessed field as
  \<open>static_field_ok_in_clinit\<close> computes it: the method belongs to the owning class or a
  subclass, and is a static initializer or an instance constructor.\<close>

definition initializer_or_constructor_of_subclass :: "ciField \<Rightarrow> ciMethod \<Rightarrow> bool" where
  "initializer_or_constructor_of_subclass field m =
     (is_subclass_of (method_holder m) (holder field)
      \<and> (if method_is_static m then method_name m = class_initializer_name
         else method_name m = object_initializer_name))"

text \<open>The relation as the specification words it: the static initializer of the owning class
  itself, or an instance constructor of the owning class or a subclass.\<close>

definition own_initializer_or_constructor_of_subclass :: "ciField \<Rightarrow> ciMethod \<Rightarrow> bool" where
  "own_initializer_or_constructor_of_subclass field m =
     ((klass_ident (method_holder m) = klass_ident (holder field)
         \<and> method_is_static m \<and> method_name m = class_initializer_name)
      \<or> (is_subclass_of (method_holder m) (holder field)
         \<and> \<not> method_is_static m \<and> method_name m = object_initializer_name))"

definition uninitialized_klass :: ciInstanceKlass where
  "uninitialized_klass =
     \<lparr>klass_ident = 1, klass_supers = [0], is_loaded = True, is_initialized = False,
      is_valuetype = False\<rparr>"

definition subclass_of_uninitialized :: ciInstanceKlass where
  "subclass_of_uninitialized =
     \<lparr>klass_ident = 2, klass_supers = [1, 0], is_loaded = True, is_initialized = False,
      is_valuetype = False\<rparr>"

definition static_field :: ciField where
  "static_field = example_field\<lparr>holder := uninitialized_klass, is_static := True\<rparr>"

definition subclass_clinit :: ciMethod where
  "subclass_clinit =
     \<lparr>method_holder = subclass_of_uninitialized, method_is_static = True,
      method_name = class_initializer_name\<rparr>"

definition subclass_init :: ciMethod where
  "subclass_init =
     \<lparr>method_holder = subclass_of_uninitialized, method_is_static = False,
      method_name = object_initializer_name\<rparr>"

definition static_access_parse :: "ciMethod \<Rightarrow> Parse" where
  "static_access_parse m =
     example_parse\<lparr>parse_method := m, parse_iter := example_iter\<lparr>get_field := static_field\<rparr>\<rparr>"

text \<open>What a step that may abort has recorded: nothing when it aborts.\<close>

definition emitted_by :: "Parse \<Rightarrow> error + Parse \<Rightarrow> event list" where
  "emitted_by p r = (case r of Inl e \<Rightarrow> [] | Inr p' \<Rightarrow> emitted p p')"

text \<open>\<open>do_get_xxx\<close> pushes a constant instead of loading: the field is constant, its type is
  loaded unless it is not an object, and \<open>make_constant_from_field\<close> finds a constant.\<close>

definition folds_to_constant :: "Config \<Rightarrow> Node \<Rightarrow> ciField \<Rightarrow> bool" where
  "folds_to_constant cfg obj field =
     (is_constant field
      \<and> (layout_type field \<noteq> T_OBJECT \<or> type_is_loaded (field_type field))
      \<and> make_constant_from_field cfg field obj \<noteq> None)"

text \<open>The orderings of the loads and stores that take one, in the order recorded; the
  flattened load and store take none.\<close>

definition load_order :: "event \<Rightarrow> MemOrd option" where
  "load_order e =
     (case e of
        E_make_load n \<Rightarrow> (case n of LoadNode i adr t bt at mo a \<Rightarrow> Some mo | _ \<Rightarrow> None)
      | _ \<Rightarrow> None)"

definition store_order :: "event \<Rightarrow> MemOrd option" where
  "store_order e =
     (case e of
        E_store_oop_to_object obj adr at v t bt mo \<Rightarrow> Some mo
      | E_store_to_memory adr v bt at mo a \<Rightarrow> Some mo
      | E_store_oop_to_array ary adr at v bt mo \<Rightarrow> Some mo
      | _ \<Rightarrow> None)"

definition load_orders :: "event list \<Rightarrow> MemOrd list" where
  "load_orders evs = List.map_filter load_order evs"

definition store_orders :: "event list \<Rightarrow> MemOrd list" where
  "store_orders evs = List.map_filter store_order evs"

fun is_address :: "event \<Rightarrow> bool" where
  "is_address (E_basic_plus_adr n) = True"
| "is_address e = False"

text \<open>Every event that satisfies \<open>P\<close> has the event \<open>b\<close> somewhere after it.\<close>

fun followed_by :: "(event \<Rightarrow> bool) \<Rightarrow> event \<Rightarrow> event list \<Rightarrow> bool" where
  "followed_by P b [] = True"
| "followed_by P b (e # es) = ((if P e then b \<in> set es else True) \<and> followed_by P b es)"

text \<open>The events recorded before the first address computation, and those recorded after
  the first store.\<close>

definition before_address :: "event list \<Rightarrow> event list" where
  "before_address evs = takeWhile (\<lambda>e. \<not> is_address e) evs"

definition after_store :: "event list \<Rightarrow> event list" where
  "after_store evs = tl (dropWhile (\<lambda>e. \<not> is_store e) evs)"

text \<open>The operand stack holds the value \<open>v\<close> of a field of layout \<open>bt\<close> on top of \<open>rest\<close>.\<close>

definition value_on_stack :: "BasicType \<Rightarrow> Node \<Rightarrow> Node list \<Rightarrow> Parse \<Rightarrow> bool" where
  "value_on_stack bt v rest p =
     (stack p = (if type2size bt = 1 then v # rest else top_node # v # rest))"

text \<open>The value \<open>do_put_xxx\<close> stores for a popped value \<open>v\<close>.\<close>

definition stored_value :: "ciField \<Rightarrow> Node \<Rightarrow> Node" where
  "stored_value field v = (if layout_type field = T_DOUBLE then dstore_rounding v else v)"

text \<open>The branch of \<open>do_put_xxx\<close> for a flattenable field and a value that is not a
  \<open>ValueTypeNode\<close> ("We can see a null constant here").\<close>

definition null_store_to_flattenable :: "ciField \<Rightarrow> Node \<Rightarrow> bool" where
  "null_store_to_flattenable field v =
     ((layout_type field = T_OBJECT \<or> layout_type field = T_VALUETYPE)
      \<and> is_flattenable field \<and> \<not> is_ValueType v)"

text \<open>What the flattened store of \<open>do_put_xxx\<close> asserts and casts.\<close>

definition flattened_store_ok :: "Config \<Rightarrow> ciField \<Rightarrow> Node \<Rightarrow> bool" where
  "flattened_store_ok cfg field v =
     (if (layout_type field = T_OBJECT \<or> layout_type field = T_VALUETYPE) \<and> is_flattened field
      then assert_that cfg (layout_type field = T_VALUETYPE) \<and> is_ValueType v else True)"

definition volatile_field :: ciField where
  "volatile_field = example_field\<lparr>is_volatile := True\<rparr>"

definition volatile_stable_field :: ciField where
  "volatile_stable_field = example_field\<lparr>is_volatile := True, is_stable := True, is_constant := True\<rparr>"

definition folding_config :: Config where
  "folding_config = example_config\<lparr>make_constant_from_field := (\<lambda>f n. Some (intcon 42))\<rparr>"

definition receiver :: Node where
  "receiver = Value 2 (PtrType NotNull)"

text \<open>The null assertions recorded, each with the value asserted and the bci it is placed at,
  and the result types of the loads made by \<open>make_load\<close>.\<close>

definition null_assertion :: "event \<Rightarrow> (Node \<times> int) option" where
  "null_assertion e = (case e of E_null_assert n b \<Rightarrow> Some (n, b) | _ \<Rightarrow> None)"

definition null_assertions :: "event list \<Rightarrow> (Node \<times> int) list" where
  "null_assertions evs = List.map_filter null_assertion evs"

definition load_type :: "event \<Rightarrow> Type option" where
  "load_type e =
     (case e of
        E_make_load n \<Rightarrow> (case n of LoadNode i adr t bt at mo a \<Rightarrow> Some t | _ \<Rightarrow> None)
      | _ \<Rightarrow> None)"

definition load_types :: "event list \<Rightarrow> Type list" where
  "load_types evs = List.map_filter load_type evs"

definition static_volatile_field :: ciField where
  "static_volatile_field = example_field\<lparr>is_static := True, is_volatile := True\<rparr>"

definition flattenable_field :: ciField where
  "flattenable_field = example_field\<lparr>layout_type := T_VALUETYPE, is_flattenable := True\<rparr>"

definition volatile_flattenable_field :: ciField where
  "volatile_flattenable_field = flattenable_field\<lparr>is_volatile := True\<rparr>"

definition object_field :: ciField where
  "object_field = example_field\<lparr>layout_type := T_OBJECT\<rparr>"

definition value_type_field :: ciField where
  "value_type_field = example_field\<lparr>layout_type := T_VALUETYPE\<rparr>"

definition value_store_parse :: Parse where
  "value_store_parse = example_parse\<lparr>stack := [ValueTypeNode 4, Value 2 (PtrType NotNull)]\<rparr>"

definition unloaded_value_field :: ciField where
  "unloaded_value_field =
     example_field\<lparr>layout_type := T_VALUETYPE,
                   field_type := \<lparr>type_ident = 8, type_is_loaded = False, type_size = 1\<rparr>\<rparr>"

definition null_store_parse :: Parse where
  "null_store_parse = example_parse\<lparr>stack := [null_node, Value 2 (PtrType NotNull)]\<rparr>"

definition unloaded_type_field :: ciField where
  "unloaded_type_field =
     example_field\<lparr>layout_type := T_OBJECT,
                   field_type := \<lparr>type_ident = 8, type_is_loaded = False, type_size = 1\<rparr>\<rparr>"

text \<open>The stack depth at which \<open>do_field_access\<close> looks for the receiver of an instance
  field access: on top for a get, under the value for a put.\<close>

definition receiver_depth :: "bool \<Rightarrow> ciField \<Rightarrow> nat" where
  "receiver_depth is_get field = (if is_get then 0 else type_size (field_type field))"

text \<open>An instance field access reaches the code of \<open>do_field_access\<close> for the object pointer
  ("Generate code for the object pointer"): the holder of the field is not a value type,
  the field is an instance field, and the access is not a put to a call site target.\<close>

definition reaches_object_pointer :: "bool \<Rightarrow> ciField \<Rightarrow> bool" where
  "reaches_object_pointer is_get field =
     (\<not> is_valuetype (holder field) \<and> \<not> is_static field
      \<and> (is_get \<or> \<not> is_call_site_target field))"

definition null_receiver_parse :: Parse where
  "null_receiver_parse = example_parse\<lparr>stack := [null_node, Value 3 OtherType]\<rparr>"

definition null_receiver_put_parse :: Parse where
  "null_receiver_put_parse = example_parse\<lparr>stack := [Value 1 (IntType 0 100), null_node]\<rparr>"

definition receiver_parse :: Parse where
  "receiver_parse = example_parse\<lparr>stack := [receiver]\<rparr>"

text \<open>The constant length of a dimension, \<open>-1\<close> when it is not a known constant, as
  \<open>do_multianewarray\<close> reads it.\<close>

definition dim_con :: "Node \<Rightarrow> int" where
  "dim_con len = find_int_con len (- 1)"

text \<open>The specification's count of predicted sub-allocations: the running product of the
  constant sizes across the nesting, summed over the levels; the outer array itself
  counts as one.\<close>

fun sub_allocations :: "int \<Rightarrow> int list \<Rightarrow> int" where
  "sub_allocations fanout [] = 0"
| "sub_allocations fanout (d # ds) = fanout * d + sub_allocations (fanout * d) ds"

definition predicted_allocations :: "int list \<Rightarrow> int" where
  "predicted_allocations ds = 1 + sub_allocations 1 ds"

text \<open>The limit \<open>do_multianewarray\<close> computes from the flag \<open>MultiArrayExpandLimit\<close>.\<close>

definition expand_limit_of :: "Config \<Rightarrow> int" where
  "expand_limit_of cfg = min (jint_wrap (MultiArrayExpandLimit cfg)) 100"

text \<open>The lengths given are known positive constants and the predicted count of
  allocations is within the limit.\<close>

definition small_constant_dims :: "int \<Rightarrow> Node list \<Rightarrow> bool" where
  "small_constant_dims limit lens =
     (list_all (\<lambda>len. 0 < dim_con len) lens
      \<and> predicted_allocations (map dim_con lens) \<le> limit)"

text \<open>The condition as the specification words it, on the lengths of the dimensions but
  the outermost: known constants that are not negative, with the count within the limit.\<close>

definition nonnegative_constant_dims :: "int \<Rightarrow> Node list \<Rightarrow> bool" where
  "nonnegative_constant_dims limit lens =
     (list_all (\<lambda>len. 0 \<le> dim_con len) lens
      \<and> predicted_allocations (map dim_con lens) \<le> limit)"

fun array_dimensions :: "ciKlass \<Rightarrow> nat" where
  "array_dimensions (Instance ik) = 0"
| "array_dimensions (TypeArray bt) = 1"
| "array_dimensions (ObjArray l e) = Suc (array_dimensions e)"

text \<open>\<open>expand_multianewarray\<close> passes its casts and its \<open>guarantee\<close>: a length is there, and
  for more than one dimension it is a constant that is not negative and the element
  class is an array class that can be expanded in turn.\<close>

fun expandable :: "ciKlass \<Rightarrow> Node option list \<Rightarrow> nat \<Rightarrow> bool" where
  "expandable k [] nd = False"
| "expandable k (l # rest) nd =
     (case l of
        None \<Rightarrow> False
      | Some len \<Rightarrow>
          nd \<le> 1
          \<or> (0 \<le> dim_con len
             \<and> (case element_klass k of
                  None \<Rightarrow> False
                | Some k1 \<Rightarrow> is_array_klass k1 \<and> expandable k1 rest (nd - 1))))"

fun is_runtime_call :: "event \<Rightarrow> bool" where
  "is_runtime_call (E_make_runtime_call n) = True"
| "is_runtime_call e = False"

fun is_new_array :: "event \<Rightarrow> bool" where
  "is_new_array (E_new_array n) = True"
| "is_new_array e = False"

text \<open>From \<open>p\<close> to \<open>p'\<close> the operand stack is the same and events were recorded, none of
  them a runtime call.\<close>

definition extends_without_call :: "Parse \<Rightarrow> Parse \<Rightarrow> bool" where
  "extends_without_call p p' =
     (stack p' = stack p
      \<and> (\<exists>new. events p' = events p @ new \<and> \<not> list_ex is_runtime_call new))"

text \<open>The runtime calls recorded, and the type \<open>do_multianewarray\<close> gives the result of
  its runtime call before it looks at the first length.\<close>

definition runtime_call :: "event \<Rightarrow> Node option" where
  "runtime_call e = (case e of E_make_runtime_call c \<Rightarrow> Some c | _ \<Rightarrow> None)"

definition runtime_calls :: "event list \<Rightarrow> Node list" where
  "runtime_calls evs = List.map_filter runtime_call evs"

definition runtime_entry_of :: "Node \<Rightarrow> RuntimeEntry option" where
  "runtime_entry_of c = (case c of CallRuntimeNode i entry args \<Rightarrow> Some entry | _ \<Rightarrow> None)"

definition exact_not_null_array :: "ciKlass \<Rightarrow> Type" where
  "exact_not_null_array k = cast_to_exactness True (cast_to_ptr_type NotNull (make_from_klass_raw k))"

text \<open>The entry point \<open>do_multianewarray\<close> selects for a number of dimensions.\<close>

definition entry_for_rank :: "nat \<Rightarrow> RuntimeEntry" where
  "entry_for_rank nd =
     (if nd = 2 then multianewarray2_Java
      else if nd = 3 then multianewarray3_Java
      else if nd = 4 then multianewarray4_Java
      else if nd = 5 then multianewarray5_Java
      else multianewarrayN_Java)"

text \<open>The constant a length is known to be, if any.\<close>

definition int_constant_of :: "Node \<Rightarrow> int option" where
  "int_constant_of n =
     (case gvn_type n of IntType lo hi \<Rightarrow> (if lo = hi then Some lo else None) | _ \<Rightarrow> None)"

text \<open>Reading a type term: the pointer kind, the exactness and the size given by the
  outermost cast of each kind, and the class the term was made from.  A size is known when
  the cast was given a constant.\<close>

fun type_ptr :: "Type \<Rightarrow> PTR option" where
  "type_ptr (cast_to_ptr_type q t) = Some q"
| "type_ptr (cast_to_exactness b t) = type_ptr t"
| "type_ptr (cast_to_size s t) = type_ptr t"
| "type_ptr t = None"

fun type_exact :: "Type \<Rightarrow> bool option" where
  "type_exact (cast_to_exactness b t) = Some b"
| "type_exact (cast_to_ptr_type q t) = type_exact t"
| "type_exact (cast_to_size s t) = type_exact t"
| "type_exact t = None"

fun known_size :: "Type \<Rightarrow> int option" where
  "known_size (cast_to_size s t) = (if fst s = snd s then Some (fst s) else None)"
| "known_size (cast_to_ptr_type q t) = known_size t"
| "known_size (cast_to_exactness b t) = known_size t"
| "known_size t = None"

fun type_klass :: "Type \<Rightarrow> ciKlass option" where
  "type_klass (make_from_klass_raw k) = Some k"
| "type_klass (cast_to_ptr_type q t) = type_klass t"
| "type_klass (cast_to_exactness b t) = type_klass t"
| "type_klass (cast_to_size s t) = type_klass t"
| "type_klass t = None"

definition int_array_3d :: ciKlass where
  "int_array_3d = ObjArray True (ObjArray True (TypeArray T_INT))"

definition limit_100_config :: Config where
  "limit_100_config = example_config\<lparr>MultiArrayExpandLimit := 100\<rparr>"

definition multianewarray_parse :: "nat \<Rightarrow> Node list \<Rightarrow> Parse" where
  "multianewarray_parse nd lens =
     example_parse\<lparr>stack := rev lens @ [Value 9 OtherType],
                   parse_iter := example_iter\<lparr>get_klass := int_array_3d, get_dimensions := nd\<rparr>\<rparr>"

definition variable_length :: Node where
  "variable_length = Value 1 (IntType 0 100)"

text \<open>Modelled from the spec: what a load yields is not decided in parse3.cpp.  The spec
  says that a get immediately following a put of the same field of the same object on the
  same path observes the written value: a load observes the value last stored, by the
  events recorded before it, to the address it reads.\<close>

definition store_target :: "event \<Rightarrow> (Node \<times> Node) option" where
  "store_target e =
     (case e of
        E_store_oop_to_object obj adr at v t bt mo \<Rightarrow> Some (adr, v)
      | E_store_to_memory adr v bt at mo a \<Rightarrow> Some (adr, v)
      | E_store_oop_to_array ary adr at v bt mo \<Rightarrow> Some (adr, v)
      | _ \<Rightarrow> None)"

fun stored_at :: "Node \<Rightarrow> event list \<Rightarrow> Node option" where
  "stored_at a [] = None"
| "stored_at a (e # es) =
     (case stored_at a es of
        Some v \<Rightarrow> Some v
      | None \<Rightarrow>
          (case store_target e of
             Some (adr, v) \<Rightarrow> (if adr = a then Some v else None)
           | None \<Rightarrow> None))"

definition load_observes :: "event list \<Rightarrow> Node \<Rightarrow> Node option" where
  "load_observes evs ld =
     (case ld of LoadNode i adr t bt at mo a \<Rightarrow> stored_at adr (take i evs) | _ \<Rightarrow> None)"

definition stored_values :: "event list \<Rightarrow> Node list" where
  "stored_values evs = map snd (List.map_filter store_target evs)"

text \<open>A put immediately followed by a get of the same field of the same object.\<close>

definition put_then_get :: "Config \<Rightarrow> Node \<Rightarrow> ciField \<Rightarrow> bool \<Rightarrow> Parse \<Rightarrow> error + Parse" where
  "put_then_get cfg obj field is_field p =
     (case do_put_xxx cfg obj field is_field p of
        Inl e \<Rightarrow> Inl e
      | Inr p1 \<Rightarrow> do_get_xxx cfg obj field is_field p1)"

definition stack_after :: "error + Parse \<Rightarrow> Node list" where
  "stack_after r = (case r of Inl e \<Rightarrow> [] | Inr p' \<Rightarrow> stack p')"

definition double_field :: ciField where
  "double_field = example_field\<lparr>layout_type := T_DOUBLE\<rparr>"

definition stable_double_field :: ciField where
  "stable_double_field = example_field\<lparr>layout_type := T_DOUBLE, is_stable := True, is_constant := True\<rparr>"

definition double_value :: Node where
  "double_value = Value 4 OtherType"

definition known_double :: Node where
  "known_double = Value 5 OtherType"

definition double_folding_config :: Config where
  "double_folding_config = example_config\<lparr>make_constant_from_field := (\<lambda>f n. Some known_double)\<rparr>"

definition double_parse :: Parse where
  "double_parse = example_parse\<lparr>stack := [top_node, double_value, receiver]\<rparr>"

section \<open>Properties\<close>

subsection \<open>Collections of definitions to unfold\<close>

lemmas prim_defs = push_pair_def push_node_def pop_def pop_pair_def peek_def
  null_check_def null_assert_def insert_mem_bar_def basic_plus_adr_def
  make_load_def make_from_flattened_def store_oop_to_object_def store_to_memory_def
  store_flattened_def kill_dead_locals_def new_array_def store_oop_to_array_def
  make_runtime_call_def make_slow_call_ex_def

lemmas order_defs = emitted_def load_orders_def load_order_def store_orders_def store_order_def
  List.map_filter_simps before_address_def after_store_def

lemmas example_defs = example_parse_def example_iter_def example_field_def example_config_def
  example_klass_def example_method_def

lemmas multianewarray_example_defs = multianewarray_parse_def int_array_3d_def
  limit_100_config_def variable_length_def example_defs

subsection \<open>Selectors of the state after a primitive\<close>

lemma emit_sel [simp]:
  "events (emit e p) = events p @ [e]" "stack (emit e p) = stack p"
  "stopped (emit e p) = stopped p" "bci (emit e p) = bci p"
  "parse_iter (emit e p) = parse_iter p" "parse_method (emit e p) = parse_method p"
  "wrote_volatile (emit e p) = wrote_volatile p" "wrote_fields (emit e p) = wrote_fields p"
  "wrote_final (emit e p) = wrote_final p" "wrote_stable (emit e p) = wrote_stable p"
  "alloc_with_final (emit e p) = alloc_with_final p"
  by (simp_all add: emit_def)

lemma push_sel [simp]:
  "events (push n p) = events p" "stack (push n p) = n # stack p"
  "stopped (push n p) = stopped p" "bci (push n p) = bci p"
  "parse_iter (push n p) = parse_iter p" "parse_method (push n p) = parse_method p"
  "wrote_volatile (push n p) = wrote_volatile p" "wrote_fields (push n p) = wrote_fields p"
  "wrote_final (push n p) = wrote_final p" "wrote_stable (push n p) = wrote_stable p"
  "alloc_with_final (push n p) = alloc_with_final p"
  by (simp_all add: push_def)

lemma set_bci_sel [simp]:
  "events (set_bci b p) = events p" "stack (set_bci b p) = stack p"
  "stopped (set_bci b p) = stopped p" "bci (set_bci b p) = b"
  "parse_iter (set_bci b p) = parse_iter p" "parse_method (set_bci b p) = parse_method p"
  "wrote_volatile (set_bci b p) = wrote_volatile p" "wrote_fields (set_bci b p) = wrote_fields p"
  "wrote_final (set_bci b p) = wrote_final p" "wrote_stable (set_bci b p) = wrote_stable p"
  "alloc_with_final (set_bci b p) = alloc_with_final p"
  by (simp_all add: set_bci_def)

lemma uncommon_trap_sel [simp]:
  "events (uncommon_trap r a p) = events p @ [E_uncommon_trap r a]"
  "stack (uncommon_trap r a p) = stack p"
  "stopped (uncommon_trap r a p) = True"
  "bci (uncommon_trap r a p) = bci p"
  "wrote_volatile (uncommon_trap r a p) = wrote_volatile p"
  by (simp_all add: uncommon_trap_def)

lemma note_field_write_sel [simp]:
  "events (note_field_write cfg obj f isf p) = events p"
  "stack (note_field_write cfg obj f isf p) = stack p"
  "stopped (note_field_write cfg obj f isf p) = stopped p"
  "bci (note_field_write cfg obj f isf p) = bci p"
  "wrote_volatile (note_field_write cfg obj f isf p) = wrote_volatile p"
  by (simp_all add: note_field_write_def Let_def)

lemma after_volatile_store_sel [simp]:
  "events (after_volatile_store cfg isf p) =
     events p @ (if support_IRIW_for_not_multiple_copy_atomic_cpu cfg then []
                 else [E_insert_mem_bar Op_MemBarVolatile])"
  "stack (after_volatile_store cfg isf p) = stack p"
  "stopped (after_volatile_store cfg isf p) = stopped p"
  "bci (after_volatile_store cfg isf p) = bci p"
  "wrote_volatile (after_volatile_store cfg isf p) = (isf \<or> wrote_volatile p)"
  by (simp_all add: after_volatile_store_def Let_def insert_mem_bar_def)

lemma emitted_append: "events p' = events p @ new \<Longrightarrow> emitted p p' = new"
  by (simp add: emitted_def)

subsection \<open>Array allocation of one dimension\<close>

text \<open>
  C8.  \<open>do_newarray\<close>: when the array class is not loaded, the only thing recorded is an
  uncommon trap with reason "unloaded" and action "reinterpret"; when the array class is
  loaded and the element class is a value type that is not initialized, the only thing
  recorded is an uncommon trap with reason "uninitialized" and action "reinterpret".  In
  both cases the path is stopped, no allocation is recorded and the operand stack is
  what it was: nothing is pushed and the length is not popped.
\<close>

theorem do_newarray_trap:
  assumes "assert_that cfg (get_klass_will_link (parse_iter p))"
  shows "(\<not> klass_is_loaded (ciArrayKlass_make cfg (get_klass (parse_iter p))) \<longrightarrow>
            (\<exists>p'. do_newarray cfg p = Inr p'
               \<and> emitted p p' = [E_uncommon_trap Reason_unloaded Action_reinterpret]
               \<and> stopped p' \<and> stack p' = stack p
               \<and> \<not> list_ex is_allocation (emitted p p')))
       \<and> (klass_is_loaded (ciArrayKlass_make cfg (get_klass (parse_iter p)))
            \<and> klass_is_valuetype (get_klass (parse_iter p))
            \<and> \<not> klass_is_initialized (get_klass (parse_iter p)) \<longrightarrow>
            (\<exists>p'. do_newarray cfg p = Inr p'
               \<and> emitted p p' = [E_uncommon_trap Reason_uninitialized Action_reinterpret]
               \<and> stopped p' \<and> stack p' = stack p
               \<and> \<not> list_ex is_allocation (emitted p p')))"
  using assms
  by (simp add: do_newarray_def Let_def ciArrayKlass_make_def emitted_def)

theorem do_newarray_trap_witness:
  "(\<exists>p'. do_newarray unloaded_array_config example_parse = Inr p'
       \<and> emitted example_parse p' = [E_uncommon_trap Reason_unloaded Action_reinterpret]
       \<and> stopped p' \<and> stack p' = stack example_parse
       \<and> \<not> list_ex is_allocation (emitted example_parse p'))
   \<and> (\<exists>p'. do_newarray example_config value_array_parse = Inr p'
       \<and> emitted value_array_parse p' = [E_uncommon_trap Reason_uninitialized Action_reinterpret]
       \<and> stopped p' \<and> stack p' = stack value_array_parse
       \<and> \<not> list_ex is_allocation (emitted value_array_parse p'))"
proof -
  have a: "assert_that unloaded_array_config (get_klass_will_link (parse_iter example_parse))"
    by (simp add: assert_that_def example_parse_def example_iter_def)
  have b: "assert_that example_config (get_klass_will_link (parse_iter value_array_parse))"
    by (simp add: assert_that_def value_array_parse_def example_parse_def example_iter_def)
  have c: "\<not> klass_is_loaded (ciArrayKlass_make unloaded_array_config
                                (get_klass (parse_iter example_parse)))"
    by (simp add: ciArrayKlass_make_def unloaded_array_config_def example_config_def)
  have d: "klass_is_loaded (ciArrayKlass_make example_config
                              (get_klass (parse_iter value_array_parse)))
           \<and> klass_is_valuetype (get_klass (parse_iter value_array_parse))
           \<and> \<not> klass_is_initialized (get_klass (parse_iter value_array_parse))"
    by (simp add: ciArrayKlass_make_def example_config_def value_array_parse_def
        example_parse_def example_iter_def uninitialized_value_klass_def)
  from do_newarray_trap [OF a] c do_newarray_trap [OF b] d show ?thesis by blast
qed

subsection \<open>What field access records\<close>

lemma do_get_xxx_events:
  "do_get_xxx cfg obj f isf p = Inr p' \<Longrightarrow>
     \<exists>new. events p' = events p @ new \<and> (\<forall>e\<in>set new. \<not> is_trap e)"
  unfolding do_get_xxx_def assert_null_at_next_bci_def
  by (auto simp: prim_defs Let_def
      split: option.splits sum.splits if_splits prod.splits list.splits)

lemma do_put_xxx_events:
  "do_put_xxx cfg obj f isf p = Inr p' \<Longrightarrow>
     \<exists>new. events p' = events p @ new
       \<and> (\<forall>e\<in>set new. is_trap e \<longrightarrow> e = E_uncommon_trap Reason_null_check Action_none)"
  unfolding do_put_xxx_def
  by (auto simp: prim_defs Let_def reason_null_check_def
      split: option.splits sum.splits if_splits prod.splits list.splits)

subsection \<open>Static access to a class that is not initialized\<close>

lemma static_field_ok_in_clinit_eq:
  "is_static f \<Longrightarrow>
     static_field_ok_in_clinit cfg f m = Inr (initializer_or_constructor_of_subclass f m)"
  by (simp add: static_field_ok_in_clinit_def initializer_or_constructor_of_subclass_def
      assert_that_def Let_def)

lemma traps_uninitialized_weaken:
  "traps_uninitialized_without_access p r \<Longrightarrow> traps_uninitialized p r"
  by (auto simp: traps_uninitialized_without_access_def traps_uninitialized_def
      split: sum.splits)

lemma no_uninit_get: "\<not> traps_uninitialized p (do_get_xxx cfg obj f isf p)"
proof (cases "do_get_xxx cfg obj f isf p")
  case (Inl e)
  then show ?thesis by (simp add: traps_uninitialized_def)
next
  case (Inr p')
  from do_get_xxx_events [OF Inr] obtain new where
    n: "events p' = events p @ new" "\<forall>e\<in>set new. \<not> is_trap e" by blast
  from n(2) have "E_uncommon_trap Reason_uninitialized Action_reinterpret \<notin> set new" by auto
  with n(1) Inr show ?thesis by (simp add: traps_uninitialized_def emitted_append)
qed

lemma no_uninit_put: "\<not> traps_uninitialized p (do_put_xxx cfg obj f isf p)"
proof (cases "do_put_xxx cfg obj f isf p")
  case (Inl e)
  then show ?thesis by (simp add: traps_uninitialized_def)
next
  case (Inr p')
  from do_put_xxx_events [OF Inr] obtain new where
    n: "events p' = events p @ new"
       "\<forall>e\<in>set new. is_trap e \<longrightarrow> e = E_uncommon_trap Reason_null_check Action_none" by blast
  from n(2) have "E_uncommon_trap Reason_uninitialized Action_reinterpret \<notin> set new" by auto
  with n(1) Inr show ?thesis by (simp add: traps_uninitialized_def emitted_append)
qed

lemma static_access_unfold:
  assumes "is_static (get_field (parse_iter p))"
      and "assert_that cfg (get_field_will_link (parse_iter p))"
  shows "do_field_access cfg is_get False p =
     (if \<not> is_initialized (holder (get_field (parse_iter p)))
         \<and> \<not> initializer_or_constructor_of_subclass (get_field (parse_iter p)) (parse_method p)
      then Inr (uncommon_trap Reason_uninitialized Action_reinterpret p)
      else if \<not> is_get \<and> is_call_site_target (get_field (parse_iter p))
      then Inr (uncommon_trap Reason_unhandled Action_reinterpret p)
      else if \<not> assert_that cfg (will_link (get_field (parse_iter p))) then Inl AssertFailed
      else if is_get
      then do_get_xxx cfg (makecon_mirror (holder (get_field (parse_iter p))))
             (get_field (parse_iter p)) False p
      else do_put_xxx cfg (makecon_mirror (holder (get_field (parse_iter p))))
             (get_field (parse_iter p)) False p)"
  using assms
  by (simp add: do_field_access_def Let_def static_field_ok_in_clinit_eq)

lemma static_access_no_trap:
  assumes "is_static (get_field (parse_iter p))"
      and "assert_that cfg (get_field_will_link (parse_iter p))"
      and "initializer_or_constructor_of_subclass (get_field (parse_iter p)) (parse_method p)"
  shows "\<not> traps_uninitialized p (do_field_access cfg is_get False p)"
proof -
  have v: "\<not> traps_uninitialized p (Inr (uncommon_trap Reason_unhandled Action_reinterpret p))"
    by (simp add: traps_uninitialized_def emitted_def)
  have w: "\<not> traps_uninitialized p (Inl AssertFailed)"
    by (simp add: traps_uninitialized_def)
  show ?thesis
    unfolding static_access_unfold [OF assms(1,2)]
    by (simp add: assms(3) v w no_uninit_get no_uninit_put)
qed

text \<open>
  C1, as the code has it.  For a static get or put of a static field whose owning class is
  not initialized, \<open>do_field_access\<close> records the trap "uninitialized"/"reinterpret", and no
  load or store, if and only if the current method is neither a static initializer nor an
  instance constructor of the owning class or of one of its subclasses.  When the method
  is such an initializer or constructor, the access does not trap for this reason,
  whatever the initialization state of the class.
\<close>

theorem static_access_uninitialized_trap:
  assumes "is_static (get_field (parse_iter p))"
      and "assert_that cfg (get_field_will_link (parse_iter p))"
  shows "(\<not> is_initialized (holder (get_field (parse_iter p))) \<longrightarrow>
            (traps_uninitialized_without_access p (do_field_access cfg is_get False p)
             \<longleftrightarrow> \<not> initializer_or_constructor_of_subclass (get_field (parse_iter p))
                    (parse_method p)))
       \<and> (initializer_or_constructor_of_subclass (get_field (parse_iter p)) (parse_method p) \<longrightarrow>
            \<not> traps_uninitialized p (do_field_access cfg is_get False p))"
proof -
  have u: "traps_uninitialized_without_access p
             (Inr (uncommon_trap Reason_uninitialized Action_reinterpret p))"
    by (simp add: traps_uninitialized_without_access_def emitted_def)
  have n: "initializer_or_constructor_of_subclass (get_field (parse_iter p)) (parse_method p)
           \<Longrightarrow> \<not> traps_uninitialized_without_access p (do_field_access cfg is_get False p)"
    using static_access_no_trap [OF assms] traps_uninitialized_weaken by blast
  have t: "\<not> is_initialized (holder (get_field (parse_iter p))) \<Longrightarrow>
           \<not> initializer_or_constructor_of_subclass (get_field (parse_iter p)) (parse_method p)
           \<Longrightarrow> traps_uninitialized_without_access p (do_field_access cfg is_get False p)"
    unfolding static_access_unfold [OF assms] by (simp add: u)
  from n t static_access_no_trap [OF assms] show ?thesis by blast
qed

lemma static_access_parse_sel:
  "get_field (parse_iter (static_access_parse m)) = static_field"
  "parse_method (static_access_parse m) = m"
  "get_field_will_link (parse_iter (static_access_parse m)) = True"
  by (simp_all add: static_access_parse_def example_iter_def)

theorem static_access_uninitialized_trap_witness:
  "traps_uninitialized_without_access (static_access_parse example_method)
     (do_field_access example_config True False (static_access_parse example_method))
   \<and> \<not> traps_uninitialized (static_access_parse subclass_init)
         (do_field_access example_config False False (static_access_parse subclass_init))"
proof -
  have s: "is_static (get_field (parse_iter (static_access_parse m)))" for m
    by (simp add: static_access_parse_sel static_field_def)
  have a: "assert_that example_config (get_field_will_link (parse_iter (static_access_parse m)))"
    for m by (simp add: static_access_parse_sel assert_that_def)
  have i: "\<not> is_initialized (holder (get_field (parse_iter (static_access_parse m))))" for m
    by (simp add: static_access_parse_sel static_field_def uninitialized_klass_def)
  have r1: "\<not> initializer_or_constructor_of_subclass
               (get_field (parse_iter (static_access_parse example_method)))
               (parse_method (static_access_parse example_method))"
    by (simp add: static_access_parse_sel initializer_or_constructor_of_subclass_def
        example_method_def)
  have r2: "initializer_or_constructor_of_subclass
               (get_field (parse_iter (static_access_parse subclass_init)))
               (parse_method (static_access_parse subclass_init))"
    by (simp add: static_access_parse_sel initializer_or_constructor_of_subclass_def
        subclass_init_def is_subclass_of_def static_field_def uninitialized_klass_def
        subclass_of_uninitialized_def)
  from static_access_uninitialized_trap [OF s a, of example_method True] i r1
       static_access_uninitialized_trap [OF s a, of subclass_init False] r2
  show ?thesis by blast
qed

text \<open>
  C1 as the specification words it fails: the static initializer of a subclass is not the
  owning class's own initializer and is no constructor, and yet a static get from it, of
  a field of the uninitialized superclass, is compiled without the trap.
\<close>

theorem static_access_subclass_clinit_counterexample:
  "\<not> is_initialized (holder (get_field (parse_iter (static_access_parse subclass_clinit))))
   \<and> \<not> own_initializer_or_constructor_of_subclass
         (get_field (parse_iter (static_access_parse subclass_clinit)))
         (parse_method (static_access_parse subclass_clinit))
   \<and> \<not> traps_uninitialized_without_access (static_access_parse subclass_clinit)
         (do_field_access example_config True False (static_access_parse subclass_clinit))
   \<and> emitted_by (static_access_parse subclass_clinit)
         (do_field_access example_config True False (static_access_parse subclass_clinit))
       = [E_basic_plus_adr (AddPNode (makecon_mirror uninitialized_klass)
                              (makecon_mirror uninitialized_klass) 12),
          E_make_load (LoadNode 1 (AddPNode (makecon_mirror uninitialized_klass)
                                     (makecon_mirror uninitialized_klass) 12)
                         (get_const_basic_type T_INT) T_INT (alias_type static_field)
                         unordered False)]"
proof -
  have s: "is_static (get_field (parse_iter (static_access_parse subclass_clinit)))"
    by (simp add: static_access_parse_sel static_field_def)
  have a: "assert_that example_config
             (get_field_will_link (parse_iter (static_access_parse subclass_clinit)))"
    by (simp add: static_access_parse_sel assert_that_def)
  have r: "initializer_or_constructor_of_subclass
               (get_field (parse_iter (static_access_parse subclass_clinit)))
               (parse_method (static_access_parse subclass_clinit))"
    by (simp add: static_access_parse_sel initializer_or_constructor_of_subclass_def
        subclass_clinit_def is_subclass_of_def static_field_def uninitialized_klass_def
        subclass_of_uninitialized_def)
  have "\<not> traps_uninitialized_without_access (static_access_parse subclass_clinit)
         (do_field_access example_config True False (static_access_parse subclass_clinit))"
    using static_access_no_trap [OF s a r] traps_uninitialized_weaken by blast
  moreover have "\<not> own_initializer_or_constructor_of_subclass
         (get_field (parse_iter (static_access_parse subclass_clinit)))
         (parse_method (static_access_parse subclass_clinit))"
    by (simp add: static_access_parse_sel own_initializer_or_constructor_of_subclass_def
        subclass_clinit_def static_field_def uninitialized_klass_def
        subclass_of_uninitialized_def)
  moreover have
    "\<not> is_initialized (holder (get_field (parse_iter (static_access_parse subclass_clinit))))"
    by (simp add: static_access_parse_sel static_field_def uninitialized_klass_def)
  moreover have "emitted_by (static_access_parse subclass_clinit)
         (do_field_access example_config True False (static_access_parse subclass_clinit))
       = [E_basic_plus_adr (AddPNode (makecon_mirror uninitialized_klass)
                              (makecon_mirror uninitialized_klass) 12),
          E_make_load (LoadNode 1 (AddPNode (makecon_mirror uninitialized_klass)
                                     (makecon_mirror uninitialized_klass) 12)
                         (get_const_basic_type T_INT) T_INT (alias_type static_field)
                         unordered False)]"
    by (simp add: do_field_access_def do_get_xxx_def field_load_type_def
        static_access_parse_def example_parse_def example_iter_def example_field_def
        static_field_def example_config_def subclass_clinit_def uninitialized_klass_def
        subclass_of_uninitialized_def Let_def assert_that_def static_field_ok_in_clinit_def
        is_subclass_of_def prim_defs type2size_def emitted_by_def emitted_def)
  ultimately show ?thesis by blast
qed

subsection \<open>The events and the state after a get and after a put\<close>

lemma field_load_type_must:
  "field_load_type cfg f = Inr (ty, True) \<Longrightarrow>
     (layout_type f = T_OBJECT \<or> layout_type f = T_VALUETYPE) \<and> \<not> type_is_loaded (field_type f)
     \<and> ty = TypeInstPtr_BOTTOM"
  by (auto simp: field_load_type_def Let_def split: if_splits)

lemma do_get_xxx_shape:
  assumes nf: "\<not> folds_to_constant cfg obj f"
      and ty: "field_load_type cfg f = Inr (ty, must)"
  shows "let adr = AddPNode obj obj (offset_in_bytes f);
             iriw = (support_IRIW_for_not_multiple_copy_atomic_cpu cfg \<and> is_volatile f);
             n = length (events p) + (if iriw then 2 else 1);
             bt2 = (if \<not> is_flattened f \<and> layout_type f = T_VALUETYPE \<and> \<not> is_flattenable f
                    then T_VALUETYPEPTR else layout_type f);
             ld = (if is_flattened f
                   then FlattenedLoad n (field_type f) obj obj (holder f) (offset_in_bytes f)
                   else LoadNode n adr ty bt2 (alias_type f)
                          (if is_volatile f then acquire else unordered)
                          (is_volatile f \<or> AlwaysAtomicAccesses cfg))
         in \<exists>p'. do_get_xxx cfg obj f isf p = Inr p'
              \<and> events p' = events p @ [E_basic_plus_adr adr]
                   @ (if iriw then [E_insert_mem_bar Op_MemBarVolatile] else [])
                   @ [if is_flattened f then E_make_from_flattened ld else E_make_load ld]
                   @ (if must then [E_null_assert ld (next_bci (parse_iter p))] else [])
                   @ (if is_volatile f then [E_insert_mem_bar Op_MemBarAcquire] else [])
              \<and> stack p' = (if type2size bt2 = 1 then [ld] else [top_node, ld]) @ stack p
              \<and> bci p' = (if must then cur_bci (parse_iter p) else bci p)
              \<and> stopped p' = stopped p"
proof -
  have c: "(if is_constant f \<and> (layout_type f \<noteq> T_OBJECT \<or> type_is_loaded (field_type f))
            then make_constant_from_field cfg f obj else None) = None"
    using nf by (auto simp: folds_to_constant_def)
  have m: "must \<Longrightarrow> layout_type f = T_OBJECT \<or> layout_type f = T_VALUETYPE"
    using ty field_load_type_must [of cfg f ty] by auto
  show ?thesis
  proof (cases must)
    case True
    with m have "layout_type f = T_OBJECT \<or> layout_type f = T_VALUETYPE" by simp
    then show ?thesis
    proof
      assume "layout_type f = T_OBJECT"
      with True ty c show ?thesis
        by (simp add: do_get_xxx_def Let_def prim_defs assert_null_at_next_bci_def type2size_def)
    next
      assume "layout_type f = T_VALUETYPE"
      with True ty c show ?thesis
        by (simp add: do_get_xxx_def Let_def prim_defs assert_null_at_next_bci_def type2size_def)
    qed
  next
    case False
    with ty c show ?thesis
      by (simp add: do_get_xxx_def Let_def prim_defs)
  qed
qed

lemma do_put_xxx_trap_shape:
  assumes st: "value_on_stack (layout_type f) v rest p"
      and tr: "null_store_to_flattenable f v"
  shows "if assert_that cfg (gvn_type v = PtrType Null)
         then \<exists>p'. do_put_xxx cfg obj f isf p = Inr p'
                \<and> events p' = events p
                     @ (if is_volatile f then [E_insert_mem_bar Op_MemBarRelease] else [])
                     @ [E_basic_plus_adr (AddPNode obj obj (offset_in_bytes f)),
                        E_uncommon_trap Reason_null_check Action_none]
                \<and> stack p' = null_node # rest \<and> stopped p'
                \<and> wrote_volatile p' = wrote_volatile p
         else do_put_xxx cfg obj f isf p = Inl AssertFailed"
proof -
  from tr have bt: "layout_type f \<noteq> T_DOUBLE" "type2size (layout_type f) = 1"
    by (auto simp: null_store_to_flattenable_def type2size_def)
  from st bt have s: "stack p = v # rest" by (simp add: value_on_stack_def)
  from tr bt s show ?thesis
    by (simp add: do_put_xxx_def Let_def null_store_to_flattenable_def insert_mem_bar_def
        basic_plus_adr_def pop_def reason_null_check_def assert_that_def)
qed

lemma do_put_xxx_store_shape:
  assumes st: "value_on_stack (layout_type f) v rest p"
      and tr: "\<not> null_store_to_flattenable f (stored_value f v)"
      and ok: "flattened_store_ok cfg f (stored_value f v)"
  shows "let adr = AddPNode obj obj (offset_in_bytes f);
             bt = layout_type f;
             val = stored_value f v;
             mo = (if is_volatile f then release else release_if_reference bt);
             st = (if bt = T_OBJECT \<or> bt = T_VALUETYPE then
                     (if is_flattened f
                      then E_store_flattened val obj obj (holder f) (offset_in_bytes f)
                      else E_store_oop_to_object obj adr (alias_type f) val
                             (if \<not> type_is_loaded (field_type f) then TypeInstPtr_BOTTOM
                              else make_from_klass (field_type f)) bt mo)
                   else E_store_to_memory adr val bt (alias_type f) mo
                          (is_volatile f \<or> AlwaysAtomicAccesses cfg))
         in \<exists>p'. do_put_xxx cfg obj f isf p = Inr p'
              \<and> events p' = events p
                   @ (if is_volatile f then [E_insert_mem_bar Op_MemBarRelease] else [])
                   @ [E_basic_plus_adr adr, st]
                   @ (if is_volatile f \<and> \<not> support_IRIW_for_not_multiple_copy_atomic_cpu cfg
                      then [E_insert_mem_bar Op_MemBarVolatile] else [])
              \<and> stack p' = rest \<and> stopped p' = stopped p
              \<and> wrote_volatile p' = (is_volatile f \<and> isf \<or> wrote_volatile p)"
proof (cases "layout_type f = T_DOUBLE \<or> layout_type f = T_LONG")
  case True
  with st have s: "stack p = top_node # v # rest"
    by (auto simp: value_on_stack_def type2size_def)
  from True have nz: "layout_type f \<noteq> T_OBJECT" "layout_type f \<noteq> T_VALUETYPE" by auto
  from True s nz show ?thesis
    by (simp add: do_put_xxx_def Let_def insert_mem_bar_def basic_plus_adr_def
        pop_def pop_pair_def assert_that_def type2size_def stored_value_def
        store_to_memory_def)
next
  case False
  with st have s: "stack p = v # rest"
    by (auto simp: value_on_stack_def type2size_def)
  from False have v: "stored_value f v = v" by (simp add: stored_value_def)
  from False s tr ok show ?thesis unfolding v
    by (simp add: do_put_xxx_def Let_def insert_mem_bar_def basic_plus_adr_def
        pop_def type2size_def null_store_to_flattenable_def flattened_store_ok_def
        stored_value_def store_flattened_def store_oop_to_object_def store_to_memory_def)
       (auto simp: assert_that_def)
qed

subsection \<open>Memory ordering of field access\<close>

lemma get_ordering:
  assumes nf: "\<not> folds_to_constant cfg obj f" and ty: "field_load_type cfg f = Inr (ty, must)"
  shows "\<exists>p'. do_get_xxx cfg obj f isf p = Inr p'
           \<and> list_ex is_load (emitted p p')
           \<and> load_orders (emitted p p') =
               (if is_flattened f then [] else [if is_volatile f then acquire else unordered])
           \<and> (if is_volatile f
              then followed_by is_load (E_insert_mem_bar Op_MemBarAcquire) (emitted p p')
              else True)"
proof -
  have c: "(if is_constant f \<and> (layout_type f \<noteq> T_OBJECT \<or> type_is_loaded (field_type f))
            then make_constant_from_field cfg f obj else None) = None"
    using nf by (auto simp: folds_to_constant_def)
  have m: "must \<Longrightarrow> layout_type f = T_OBJECT \<or> layout_type f = T_VALUETYPE"
    using ty field_load_type_must [of cfg f ty] by auto
  show ?thesis
  proof (cases must)
    case True
    with m have "layout_type f = T_OBJECT \<or> layout_type f = T_VALUETYPE" by simp
    then show ?thesis
    proof
      assume "layout_type f = T_OBJECT"
      with True ty c show ?thesis
        by (simp add: do_get_xxx_def Let_def prim_defs assert_null_at_next_bci_def type2size_def
            order_defs)
    next
      assume "layout_type f = T_VALUETYPE"
      with True ty c show ?thesis
        by (simp add: do_get_xxx_def Let_def prim_defs assert_null_at_next_bci_def type2size_def
            order_defs)
    qed
  next
    case False
    with ty c show ?thesis
      by (simp add: do_get_xxx_def Let_def prim_defs order_defs)
  qed
qed

lemma put_ordering:
  assumes st: "value_on_stack (layout_type f) v rest p"
      and tr: "\<not> null_store_to_flattenable f (stored_value f v)"
      and ok: "flattened_store_ok cfg f (stored_value f v)"
  shows "\<exists>p'. do_put_xxx cfg obj f isf p = Inr p'
           \<and> list_ex is_store (emitted p p')
           \<and> store_orders (emitted p p') =
               (if (layout_type f = T_OBJECT \<or> layout_type f = T_VALUETYPE) \<and> is_flattened f
                then []
                else [if is_volatile f then release
                      else if is_reference (layout_type f) then release else unordered])
           \<and> (if is_volatile f
              then before_address (emitted p p') = [E_insert_mem_bar Op_MemBarRelease]
                   \<and> list_ex is_address (emitted p p')
              else True)"
proof (cases "layout_type f = T_DOUBLE \<or> layout_type f = T_LONG")
  case True
  with st have s: "stack p = top_node # v # rest"
    by (auto simp: value_on_stack_def type2size_def)
  from True have nz: "layout_type f \<noteq> T_OBJECT" "layout_type f \<noteq> T_VALUETYPE" by auto
  from True s nz show ?thesis
    by (simp add: do_put_xxx_def Let_def insert_mem_bar_def basic_plus_adr_def
        pop_def pop_pair_def assert_that_def type2size_def stored_value_def
        store_to_memory_def order_defs release_if_reference_def is_reference_def)
next
  case False
  with st have s: "stack p = v # rest"
    by (auto simp: value_on_stack_def type2size_def)
  from False have v: "stored_value f v = v" by (simp add: stored_value_def)
  from False s tr ok show ?thesis unfolding v
    by (simp add: do_put_xxx_def Let_def insert_mem_bar_def basic_plus_adr_def
        pop_def type2size_def null_store_to_flattenable_def flattened_store_ok_def
        stored_value_def store_flattened_def store_oop_to_object_def store_to_memory_def
        order_defs release_if_reference_def)
       (auto simp: assert_that_def)
qed

lemma put_trap_ordering:
  assumes st: "value_on_stack (layout_type f) v rest p"
      and tr: "null_store_to_flattenable f v"
      and as: "assert_that cfg (gvn_type v = PtrType Null)"
  shows "\<exists>p'. do_put_xxx cfg obj f isf p = Inr p'
           \<and> store_orders (emitted p p') = []
           \<and> (if is_volatile f
              then before_address (emitted p p') = [E_insert_mem_bar Op_MemBarRelease]
                   \<and> list_ex is_address (emitted p p')
              else True)"
proof -
  from tr have bt: "layout_type f \<noteq> T_DOUBLE" "type2size (layout_type f) = 1"
    by (auto simp: null_store_to_flattenable_def type2size_def)
  from st bt have s: "stack p = v # rest" by (simp add: value_on_stack_def)
  from tr bt s as show ?thesis
    by (simp add: do_put_xxx_def Let_def null_store_to_flattenable_def insert_mem_bar_def
        basic_plus_adr_def pop_def reason_null_check_def assert_that_def order_defs)
qed

text \<open>
  C2, as the code has it.  A get that is not folded to a constant records a load; the load
  made by \<open>make_load\<close> has acquire ordering when the field is volatile and is unordered
  otherwise (the flattened load takes no ordering), and for a volatile field an acquire
  barrier is recorded after the load.  A put that stores records, for a volatile field, a
  release barrier and nothing else before the address computation, and its store has
  release ordering; for a field that is not volatile the store is releasing when the layout
  is a reference (an object, an array, or a value type, which is held behind a reference
  when it is not flattened) and unordered otherwise (the flattened store takes no
  ordering).  The put of a null to a flattenable field, which traps, records the same
  release barrier and no store.
\<close>

theorem field_access_memory_ordering:
  "(\<not> folds_to_constant cfg obj f \<and> field_load_type cfg f = Inr (ty, must) \<longrightarrow>
      (\<exists>p'. do_get_xxx cfg obj f isf p = Inr p'
         \<and> list_ex is_load (emitted p p')
         \<and> load_orders (emitted p p') =
             (if is_flattened f then [] else [if is_volatile f then acquire else unordered])
         \<and> (if is_volatile f
            then followed_by is_load (E_insert_mem_bar Op_MemBarAcquire) (emitted p p')
            else True)))
   \<and> (value_on_stack (layout_type f) v rest q
       \<and> \<not> null_store_to_flattenable f (stored_value f v)
       \<and> flattened_store_ok cfg f (stored_value f v) \<longrightarrow>
      (\<exists>q'. do_put_xxx cfg obj f isf q = Inr q'
         \<and> list_ex is_store (emitted q q')
         \<and> store_orders (emitted q q') =
             (if (layout_type f = T_OBJECT \<or> layout_type f = T_VALUETYPE) \<and> is_flattened f
              then []
              else [if is_volatile f then release
                    else if is_reference (layout_type f) then release else unordered])
         \<and> (if is_volatile f
            then before_address (emitted q q') = [E_insert_mem_bar Op_MemBarRelease]
                 \<and> list_ex is_address (emitted q q')
            else True)))
   \<and> (value_on_stack (layout_type f) v rest q \<and> null_store_to_flattenable f v
       \<and> assert_that cfg (gvn_type v = PtrType Null) \<longrightarrow>
      (\<exists>q'. do_put_xxx cfg obj f isf q = Inr q'
         \<and> store_orders (emitted q q') = []
         \<and> (if is_volatile f
            then before_address (emitted q q') = [E_insert_mem_bar Op_MemBarRelease]
                 \<and> list_ex is_address (emitted q q')
            else True)))"
  using get_ordering [of cfg obj f ty must isf p] put_ordering [of f v rest q cfg obj isf]
    put_trap_ordering [of f v rest q cfg obj isf]
  by blast

theorem field_access_memory_ordering_witness:
  "(\<exists>p'. do_get_xxx example_config receiver volatile_field True example_parse = Inr p'
         \<and> list_ex is_load (emitted example_parse p')
         \<and> load_orders (emitted example_parse p') = [acquire]
         \<and> followed_by is_load (E_insert_mem_bar Op_MemBarAcquire) (emitted example_parse p'))
   \<and> (\<exists>q'. do_put_xxx example_config receiver volatile_field True example_parse = Inr q'
         \<and> list_ex is_store (emitted example_parse q')
         \<and> store_orders (emitted example_parse q') = [release]
         \<and> before_address (emitted example_parse q') = [E_insert_mem_bar Op_MemBarRelease]
         \<and> list_ex is_address (emitted example_parse q'))
   \<and> (\<exists>p'. do_get_xxx example_config receiver example_field True example_parse = Inr p'
         \<and> load_orders (emitted example_parse p') = [unordered])
   \<and> (\<exists>q'. do_put_xxx example_config receiver example_field True example_parse = Inr q'
         \<and> store_orders (emitted example_parse q') = [unordered])
   \<and> (\<exists>q'. do_put_xxx example_config receiver object_field True null_store_parse = Inr q'
         \<and> store_orders (emitted null_store_parse q') = [release])
   \<and> (\<exists>q'. do_put_xxx example_config receiver value_type_field True value_store_parse = Inr q'
         \<and> store_orders (emitted value_store_parse q') = [release])
   \<and> (\<exists>q'. do_put_xxx example_config receiver volatile_flattenable_field True null_store_parse
              = Inr q'
         \<and> store_orders (emitted null_store_parse q') = []
         \<and> before_address (emitted null_store_parse q') = [E_insert_mem_bar Op_MemBarRelease]
         \<and> list_ex is_address (emitted null_store_parse q'))"
proof -
  have a: "\<not> folds_to_constant example_config receiver volatile_field"
          "\<not> folds_to_constant example_config receiver example_field"
    by (simp_all add: folds_to_constant_def volatile_field_def example_defs)
  have b: "field_load_type example_config volatile_field = Inr (get_const_basic_type T_INT, False)"
          "field_load_type example_config example_field = Inr (get_const_basic_type T_INT, False)"
    by (simp_all add: field_load_type_def volatile_field_def example_defs)
  have c: "value_on_stack (layout_type volatile_field) (Value 1 (IntType 0 100))
             [Value 2 (PtrType BotPTR)] example_parse"
          "value_on_stack (layout_type example_field) (Value 1 (IntType 0 100))
             [Value 2 (PtrType BotPTR)] example_parse"
    by (simp_all add: value_on_stack_def volatile_field_def example_defs type2size_def)
  have d: "\<not> null_store_to_flattenable volatile_field
               (stored_value volatile_field (Value 1 (IntType 0 100)))"
          "\<not> null_store_to_flattenable example_field
               (stored_value example_field (Value 1 (IntType 0 100)))"
    by (simp_all add: null_store_to_flattenable_def volatile_field_def example_defs)
  have e: "flattened_store_ok example_config volatile_field
             (stored_value volatile_field (Value 1 (IntType 0 100)))"
          "flattened_store_ok example_config example_field
             (stored_value example_field (Value 1 (IntType 0 100)))"
    by (simp_all add: flattened_store_ok_def volatile_field_def example_defs)
  have v: "is_volatile volatile_field" "\<not> is_flattened volatile_field"
          "\<not> is_volatile example_field" "\<not> is_flattened example_field"
          "layout_type example_field = T_INT"
    by (simp_all add: volatile_field_def example_defs)
  have o: "value_on_stack (layout_type object_field) null_node [Value 2 (PtrType NotNull)]
             null_store_parse"
          "\<not> null_store_to_flattenable object_field (stored_value object_field null_node)"
          "flattened_store_ok example_config object_field (stored_value object_field null_node)"
          "\<not> is_volatile object_field" "\<not> is_flattened object_field"
          "layout_type object_field = T_OBJECT"
    by (simp_all add: value_on_stack_def null_store_to_flattenable_def flattened_store_ok_def
        stored_value_def object_field_def null_store_parse_def example_defs type2size_def)
  have u: "value_on_stack (layout_type value_type_field) (ValueTypeNode 4)
             [Value 2 (PtrType NotNull)] value_store_parse"
          "\<not> null_store_to_flattenable value_type_field
               (stored_value value_type_field (ValueTypeNode 4))"
          "flattened_store_ok example_config value_type_field
             (stored_value value_type_field (ValueTypeNode 4))"
          "\<not> is_volatile value_type_field" "\<not> is_flattened value_type_field"
          "layout_type value_type_field = T_VALUETYPE"
    by (simp_all add: value_on_stack_def null_store_to_flattenable_def flattened_store_ok_def
        stored_value_def value_type_field_def value_store_parse_def example_defs type2size_def)
  have t: "value_on_stack (layout_type volatile_flattenable_field) null_node
             [Value 2 (PtrType NotNull)] null_store_parse"
          "null_store_to_flattenable volatile_flattenable_field null_node"
          "assert_that example_config (gvn_type null_node = PtrType Null)"
          "is_volatile volatile_flattenable_field"
    by (simp_all add: value_on_stack_def null_store_to_flattenable_def assert_that_def
        volatile_flattenable_field_def flattenable_field_def null_store_parse_def example_defs
        type2size_def)
  from field_access_memory_ordering [of example_config receiver volatile_field
      "get_const_basic_type T_INT" False True example_parse "Value 1 (IntType 0 100)"
      "[Value 2 (PtrType BotPTR)]" example_parse] a b c d e v
  have w1: "(\<exists>p'. do_get_xxx example_config receiver volatile_field True example_parse = Inr p'
         \<and> list_ex is_load (emitted example_parse p')
         \<and> load_orders (emitted example_parse p') = [acquire]
         \<and> followed_by is_load (E_insert_mem_bar Op_MemBarAcquire) (emitted example_parse p'))
   \<and> (\<exists>q'. do_put_xxx example_config receiver volatile_field True example_parse = Inr q'
         \<and> list_ex is_store (emitted example_parse q')
         \<and> store_orders (emitted example_parse q') = [release]
         \<and> before_address (emitted example_parse q') = [E_insert_mem_bar Op_MemBarRelease]
         \<and> list_ex is_address (emitted example_parse q'))"
    by simp
  from field_access_memory_ordering [of example_config receiver example_field
      "get_const_basic_type T_INT" False True example_parse "Value 1 (IntType 0 100)"
      "[Value 2 (PtrType BotPTR)]" example_parse] a b c d e v
  have w2: "(\<exists>p'. do_get_xxx example_config receiver example_field True example_parse = Inr p'
         \<and> load_orders (emitted example_parse p') = [unordered])
   \<and> (\<exists>q'. do_put_xxx example_config receiver example_field True example_parse = Inr q'
         \<and> store_orders (emitted example_parse q') = [unordered])"
    by (auto simp: is_reference_def)
  from field_access_memory_ordering [of example_config receiver object_field
      ty must True p null_node "[Value 2 (PtrType NotNull)]" null_store_parse] o
  have w3: "\<exists>q'. do_put_xxx example_config receiver object_field True null_store_parse = Inr q'
         \<and> store_orders (emitted null_store_parse q') = [release]" for ty must p
    by (auto simp: is_reference_def)
  from field_access_memory_ordering [of example_config receiver volatile_flattenable_field
      ty must True p null_node "[Value 2 (PtrType NotNull)]" null_store_parse] t
  have w4: "\<exists>q'. do_put_xxx example_config receiver volatile_flattenable_field True
                    null_store_parse = Inr q'
         \<and> store_orders (emitted null_store_parse q') = []
         \<and> before_address (emitted null_store_parse q') = [E_insert_mem_bar Op_MemBarRelease]
         \<and> list_ex is_address (emitted null_store_parse q')" for ty must p
    by auto
  from field_access_memory_ordering [of example_config receiver value_type_field
      ty must True p "ValueTypeNode 4" "[Value 2 (PtrType NotNull)]" value_store_parse] u
  have w5: "\<exists>q'. do_put_xxx example_config receiver value_type_field True value_store_parse
                    = Inr q'
         \<and> store_orders (emitted value_store_parse q') = [release]" for ty must p
    by (auto simp: is_reference_def)
  from w1 w2 w3 w4 w5 show ?thesis by blast
qed

text \<open>
  C2 as the specification words it fails: the get of a volatile field that is constant
  (a stable field) and whose value is known pushes the constant and records nothing, so
  no acquire barrier.
\<close>

theorem volatile_constant_get_counterexample:
  "is_volatile volatile_stable_field
   \<and> do_get_xxx folding_config receiver volatile_stable_field True example_parse
       = Inr (push (intcon 42) example_parse)
   \<and> emitted example_parse (push (intcon 42) example_parse) = []"
  by (simp add: do_get_xxx_def volatile_stable_field_def folding_config_def example_defs
      Let_def push_node_def type2size_def emitted_def)

subsection \<open>After a volatile store\<close>

text \<open>
  C4, as the code has it.  A put of a volatile field that stores records, after the store,
  the barrier \<open>MemBarVolatile\<close> unless \<open>support_IRIW_for_not_multiple_copy_atomic_cpu\<close>
  is set, and nothing else; it sets the "wrote volatile" flag when the field is an
  instance field and leaves the flag as it was when the field is static.
\<close>

theorem volatile_put_barrier_and_flag:
  assumes vol: "is_volatile f"
      and st: "value_on_stack (layout_type f) v rest p"
      and tr: "\<not> null_store_to_flattenable f (stored_value f v)"
      and ok: "flattened_store_ok cfg f (stored_value f v)"
  shows "\<exists>p'. do_put_xxx cfg obj f isf p = Inr p'
           \<and> list_ex is_store (emitted p p')
           \<and> after_store (emitted p p') =
               (if support_IRIW_for_not_multiple_copy_atomic_cpu cfg then []
                else [E_insert_mem_bar Op_MemBarVolatile])
           \<and> wrote_volatile p' = (isf \<or> wrote_volatile p)"
proof (cases "layout_type f = T_DOUBLE \<or> layout_type f = T_LONG")
  case True
  with st have s: "stack p = top_node # v # rest"
    by (auto simp: value_on_stack_def type2size_def)
  from True have nz: "layout_type f \<noteq> T_OBJECT" "layout_type f \<noteq> T_VALUETYPE" by auto
  from True s nz vol show ?thesis
    by (simp add: do_put_xxx_def Let_def insert_mem_bar_def basic_plus_adr_def
        pop_def pop_pair_def assert_that_def type2size_def stored_value_def
        store_to_memory_def order_defs)
next
  case False
  with st have s: "stack p = v # rest"
    by (auto simp: value_on_stack_def type2size_def)
  from False have v: "stored_value f v = v" by (simp add: stored_value_def)
  from False s tr ok vol show ?thesis unfolding v
    by (simp add: do_put_xxx_def Let_def insert_mem_bar_def basic_plus_adr_def
        pop_def type2size_def null_store_to_flattenable_def flattened_store_ok_def
        stored_value_def store_flattened_def store_oop_to_object_def store_to_memory_def
        order_defs)
       (auto simp: assert_that_def)
qed

theorem volatile_put_barrier_and_flag_witness:
  "\<exists>p'. do_put_xxx example_config receiver volatile_field True example_parse = Inr p'
      \<and> list_ex is_store (emitted example_parse p')
      \<and> after_store (emitted example_parse p') = [E_insert_mem_bar Op_MemBarVolatile]
      \<and> wrote_volatile p'"
proof -
  have a: "is_volatile volatile_field"
    by (simp add: volatile_field_def)
  have c: "value_on_stack (layout_type volatile_field) (Value 1 (IntType 0 100))
             [Value 2 (PtrType BotPTR)] example_parse"
    by (simp add: value_on_stack_def volatile_field_def example_defs type2size_def)
  have d: "\<not> null_store_to_flattenable volatile_field
               (stored_value volatile_field (Value 1 (IntType 0 100)))"
    by (simp add: null_store_to_flattenable_def volatile_field_def example_defs)
  have e: "flattened_store_ok example_config volatile_field
             (stored_value volatile_field (Value 1 (IntType 0 100)))"
    by (simp add: flattened_store_ok_def volatile_field_def example_defs)
  have i: "\<not> support_IRIW_for_not_multiple_copy_atomic_cpu example_config"
    by (simp add: example_config_def)
  from volatile_put_barrier_and_flag [OF a c d e, of receiver True] i
  show ?thesis by simp
qed

text \<open>
  C4 as the specification words it fails for a static field: the put of a volatile static
  field stores and records the barrier, and the "wrote volatile" flag stays unset.
\<close>

theorem static_volatile_put_counterexample:
  "is_volatile static_volatile_field
   \<and> do_put_xxx example_config (makecon_mirror example_klass) static_volatile_field False
        example_parse
      = Inr (example_parse
               \<lparr>stack := [Value 2 (PtrType BotPTR)],
                events :=
                  [E_insert_mem_bar Op_MemBarRelease,
                   E_basic_plus_adr (AddPNode (makecon_mirror example_klass)
                                       (makecon_mirror example_klass) 12),
                   E_store_to_memory (AddPNode (makecon_mirror example_klass)
                                        (makecon_mirror example_klass) 12)
                     (Value 1 (IntType 0 100)) T_INT (alias_type static_volatile_field)
                     release True,
                   E_insert_mem_bar Op_MemBarVolatile]\<rparr>)
   \<and> \<not> wrote_volatile (example_parse
               \<lparr>stack := [Value 2 (PtrType BotPTR)],
                events :=
                  [E_insert_mem_bar Op_MemBarRelease,
                   E_basic_plus_adr (AddPNode (makecon_mirror example_klass)
                                       (makecon_mirror example_klass) 12),
                   E_store_to_memory (AddPNode (makecon_mirror example_klass)
                                        (makecon_mirror example_klass) 12)
                     (Value 1 (IntType 0 100)) T_INT (alias_type static_volatile_field)
                     release True,
                   E_insert_mem_bar Op_MemBarVolatile]\<rparr>)"
  by (simp add: do_put_xxx_def static_volatile_field_def example_defs Let_def type2size_def
      insert_mem_bar_def basic_plus_adr_def pop_def store_to_memory_def emit_def
      after_volatile_store_def note_field_write_def)

subsection \<open>The store of a null to a flattenable field\<close>

text \<open>
  C5, as the code has it.  A put to a flattenable field of object or value-type layout
  whose popped value is not a \<open>ValueTypeNode\<close>: a debug build asserts that the value is
  the null constant and aborts when it is not; otherwise the null constant is pushed, one
  uncommon trap with the null-check reason and action "none" is recorded, the path is
  stopped and no store is recorded.  The trap does not depend on the value being
  provably non-null.
\<close>

theorem flattenable_null_store_trap:
  assumes st: "value_on_stack (layout_type f) v rest p"
      and tr: "null_store_to_flattenable f v"
  shows "if assert_that cfg (gvn_type v = PtrType Null)
         then \<exists>p'. do_put_xxx cfg obj f isf p = Inr p'
                \<and> stopped p'
                \<and> filter is_trap (emitted p p') = [E_uncommon_trap Reason_null_check Action_none]
                \<and> \<not> list_ex is_store (emitted p p')
                \<and> stack p' = null_node # rest
         else do_put_xxx cfg obj f isf p = Inl AssertFailed"
proof -
  from tr have bt: "layout_type f \<noteq> T_DOUBLE" "type2size (layout_type f) = 1"
    by (auto simp: null_store_to_flattenable_def type2size_def)
  from st bt have s: "stack p = v # rest" by (simp add: value_on_stack_def)
  from tr bt s show ?thesis
    by (simp add: do_put_xxx_def Let_def null_store_to_flattenable_def insert_mem_bar_def
        basic_plus_adr_def pop_def reason_null_check_def assert_that_def emitted_def)
qed

theorem flattenable_null_store_trap_witness:
  "(\<exists>p'. do_put_xxx example_config receiver flattenable_field True null_store_parse = Inr p'
      \<and> stopped p'
      \<and> filter is_trap (emitted null_store_parse p')
          = [E_uncommon_trap Reason_null_check Action_none]
      \<and> \<not> list_ex is_store (emitted null_store_parse p')
      \<and> stack p' = null_node # [Value 2 (PtrType NotNull)])
   \<and> do_put_xxx example_config receiver flattenable_field True receiver_parse
       = Inl AssertFailed"
proof -
  have a: "value_on_stack (layout_type flattenable_field) null_node [Value 2 (PtrType NotNull)]
             null_store_parse"
    by (simp add: value_on_stack_def flattenable_field_def null_store_parse_def example_defs
        type2size_def)
  have b: "null_store_to_flattenable flattenable_field null_node"
    by (simp add: null_store_to_flattenable_def flattenable_field_def example_defs)
  have c: "assert_that example_config (gvn_type null_node = PtrType Null)"
    by (simp add: assert_that_def)
  have a': "value_on_stack (layout_type flattenable_field) receiver [] receiver_parse"
    by (simp add: value_on_stack_def flattenable_field_def receiver_parse_def example_defs
        type2size_def)
  have b': "null_store_to_flattenable flattenable_field receiver"
    by (simp add: null_store_to_flattenable_def flattenable_field_def example_defs receiver_def)
  have c': "\<not> assert_that example_config (gvn_type receiver = PtrType Null)"
    by (simp add: assert_that_def receiver_def example_config_def)
  from flattenable_null_store_trap [OF a b, of example_config receiver True] c
       flattenable_null_store_trap [OF a' b', of example_config receiver True] c'
  show ?thesis by simp
qed

text \<open>
  C5 as the specification words it fails: the null constant is not provably non-null, and
  the put of it to a flattenable field records the trap and stops the path.
\<close>

theorem null_literal_store_counterexample:
  "gvn_type null_node \<noteq> PtrType NotNull
   \<and> is_flattenable flattenable_field
   \<and> \<not> is_ValueType null_node
   \<and> do_put_xxx example_config receiver flattenable_field True null_store_parse
      = Inr (null_store_parse
               \<lparr>events :=
                  [E_basic_plus_adr (AddPNode receiver receiver 12),
                   E_uncommon_trap Reason_null_check Action_none],
                stopped := True\<rparr>)"
  by (simp add: do_put_xxx_def flattenable_field_def null_store_parse_def example_defs Let_def
      type2size_def basic_plus_adr_def pop_def push_def uncommon_trap_def emit_def
      reason_null_check_def assert_that_def)

subsection \<open>The get of a field whose type is not loaded\<close>

text \<open>
  C7.  A get of a field of object layout whose declared type is not loaded (or of
  value-type layout, when the get is not folded to a constant): the type of the load is
  \<open>TypeInstPtr::BOTTOM\<close>; exactly one null assertion is recorded, on the value the get
  has pushed, and it is placed at the next bci of the bytecode stream, not at the current
  one; afterwards the bci of the parser is the current bci of the stream again.
\<close>

theorem unloaded_field_type_get:
  assumes bt: "layout_type f = T_OBJECT
               \<or> (layout_type f = T_VALUETYPE \<and> \<not> folds_to_constant cfg obj f)"
      and ul: "\<not> type_is_loaded (field_type f)"
      and nx: "cur_bci (parse_iter p) \<noteq> next_bci (parse_iter p)"
  shows "field_load_type cfg f = Inr (TypeInstPtr_BOTTOM, True)
       \<and> (\<exists>p'. do_get_xxx cfg obj f isf p = Inr p'
             \<and> load_types (emitted p p') = (if is_flattened f then [] else [TypeInstPtr_BOTTOM])
             \<and> null_assertions (emitted p p') = [(hd (stack p'), next_bci (parse_iter p))]
             \<and> stack p' = hd (stack p') # stack p
             \<and> cur_bci (parse_iter p) \<notin> set (map snd (null_assertions (emitted p p')))
             \<and> bci p' = cur_bci (parse_iter p))"
proof -
  from bt ul have c: "(if is_constant f \<and> (layout_type f \<noteq> T_OBJECT \<or> type_is_loaded (field_type f))
            then make_constant_from_field cfg f obj else None) = None"
    by (auto simp: folds_to_constant_def)
  from bt ul have ty: "field_load_type cfg f = Inr (TypeInstPtr_BOTTOM, True)"
    by (auto simp: field_load_type_def Let_def)
  from bt have "layout_type f = T_OBJECT \<or> layout_type f = T_VALUETYPE" by auto
  then have "\<exists>p'. do_get_xxx cfg obj f isf p = Inr p'
             \<and> load_types (emitted p p') = (if is_flattened f then [] else [TypeInstPtr_BOTTOM])
             \<and> null_assertions (emitted p p') = [(hd (stack p'), next_bci (parse_iter p))]
             \<and> stack p' = hd (stack p') # stack p
             \<and> cur_bci (parse_iter p) \<notin> set (map snd (null_assertions (emitted p p')))
             \<and> bci p' = cur_bci (parse_iter p)"
  proof
    assume "layout_type f = T_OBJECT"
    with ty c nx show ?thesis
      by (simp add: do_get_xxx_def Let_def prim_defs assert_null_at_next_bci_def type2size_def
          emitted_def load_types_def load_type_def null_assertions_def null_assertion_def
          List.map_filter_simps)
  next
    assume "layout_type f = T_VALUETYPE"
    with ty c nx show ?thesis
      by (simp add: do_get_xxx_def Let_def prim_defs assert_null_at_next_bci_def type2size_def
          emitted_def load_types_def load_type_def null_assertions_def null_assertion_def
          List.map_filter_simps)
  qed
  with ty show ?thesis by simp
qed

theorem unloaded_field_type_get_witness:
  "field_load_type example_config unloaded_type_field = Inr (TypeInstPtr_BOTTOM, True)
   \<and> (\<exists>p'. do_get_xxx example_config receiver unloaded_type_field True example_parse = Inr p'
         \<and> load_types (emitted example_parse p') = [TypeInstPtr_BOTTOM]
         \<and> null_assertions (emitted example_parse p') = [(hd (stack p'), 13)]
         \<and> stack p' = hd (stack p') # stack example_parse
         \<and> 10 \<notin> set (map snd (null_assertions (emitted example_parse p')))
         \<and> bci p' = 10)
   \<and> (\<exists>p'. do_get_xxx example_config receiver unloaded_value_field True example_parse = Inr p'
         \<and> load_types (emitted example_parse p') = [TypeInstPtr_BOTTOM]
         \<and> null_assertions (emitted example_parse p') = [(hd (stack p'), 13)]
         \<and> bci p' = 10)"
proof -
  have a: "layout_type unloaded_type_field = T_OBJECT
           \<or> (layout_type unloaded_type_field = T_VALUETYPE
              \<and> \<not> folds_to_constant example_config receiver unloaded_type_field)"
    by (simp add: unloaded_type_field_def)
  have b: "\<not> type_is_loaded (field_type unloaded_type_field)"
    by (simp add: unloaded_type_field_def)
  have a': "layout_type unloaded_value_field = T_OBJECT
           \<or> (layout_type unloaded_value_field = T_VALUETYPE
              \<and> \<not> folds_to_constant example_config receiver unloaded_value_field)"
    by (simp add: unloaded_value_field_def folds_to_constant_def example_defs)
  have b': "\<not> type_is_loaded (field_type unloaded_value_field)"
    by (simp add: unloaded_value_field_def)
  have c: "cur_bci (parse_iter example_parse) \<noteq> next_bci (parse_iter example_parse)"
    by (simp add: example_defs)
  have d: "cur_bci (parse_iter example_parse) = 10" "next_bci (parse_iter example_parse) = 13"
    "\<not> is_flattened unloaded_type_field" "\<not> is_flattened unloaded_value_field"
    by (simp_all add: example_defs unloaded_type_field_def unloaded_value_field_def)
  from unloaded_field_type_get [OF a b c, of True]
       unloaded_field_type_get [OF a' b' c, of True] d
  show ?thesis by auto
qed

subsection \<open>The null check of the receiver\<close>

lemma instance_access_cases:
  assumes r: "do_field_access cfg is_get True p = Inr p'"
  shows "(is_valuetype (holder (get_field (parse_iter p)))
            \<and> emitted p p' = []
            \<and> (is_get \<longrightarrow> stack p \<noteq> [] \<and> is_ValueType (hd (stack p))))
       \<or> (\<not> reaches_object_pointer is_get (get_field (parse_iter p))
            \<and> (\<exists>reason action. emitted p p' = [E_uncommon_trap reason action])
            \<and> stopped p' \<and> stack p' = stack p)
       \<or> (reaches_object_pointer is_get (get_field (parse_iter p))
            \<and> receiver_depth is_get (get_field (parse_iter p)) < length (stack p)
            \<and> emitted p p'
                = [E_null_check (stack p ! receiver_depth is_get (get_field (parse_iter p)))]
            \<and> stopped p' \<and> stack p' = stack p)
       \<or> (reaches_object_pointer is_get (get_field (parse_iter p))
            \<and> receiver_depth is_get (get_field (parse_iter p)) < length (stack p)
            \<and> gvn_type (stack p ! receiver_depth is_get (get_field (parse_iter p)))
                \<noteq> PtrType Null
            \<and> (\<exists>new. emitted p p'
                  = E_null_check (stack p ! receiver_depth is_get (get_field (parse_iter p)))
                    # new))"
proof -
  have g: "do_get_xxx cfg obj f isf q = Inr q' \<Longrightarrow> events q = events p @ [e]
           \<Longrightarrow> \<exists>new. emitted p q' = e # new" for obj f isf q q' e
    using do_get_xxx_events [of cfg obj f isf q q'] by (auto simp: emitted_def)
  have h: "do_put_xxx cfg obj f isf q = Inr q' \<Longrightarrow> events q = events p @ [e]
           \<Longrightarrow> \<exists>new. emitted p q' = e # new" for obj f isf q q' e
    using do_put_xxx_events [of cfg obj f isf q q'] by (auto simp: emitted_def)
  have h2: "do_put_xxx cfg obj f isf q = Inr q' \<Longrightarrow> events q = events p @ [e]
           \<Longrightarrow> \<exists>new. emitted p (q'\<lparr>stack := s\<rparr>) = e # new" for obj f isf q q' e s
    using do_put_xxx_events [of cfg obj f isf q q'] by (auto simp: emitted_def)
  show ?thesis
  proof (cases "is_valuetype (holder (get_field (parse_iter p)))")
    case True
    with r show ?thesis
      by (auto simp: do_field_access_def Let_def pop_def push_node_def push_pair_def emitted_def
          split: if_splits list.splits)
  next
    case False
    with r show ?thesis
      by (auto simp: do_field_access_def Let_def emitted_def receiver_depth_def peek_def
            null_check_def pop_def reaches_object_pointer_def
          split: if_splits sum.splits GvnType.splits PTR.splits list.splits
          dest!: g h)
  qed
qed

lemma null_receiver_access:
  assumes re: "reaches_object_pointer is_get (get_field (parse_iter p))"
      and a1: "assert_that cfg (get_field_will_link (parse_iter p))"
      and a2: "assert_that cfg (will_link (get_field (parse_iter p)))"
      and d: "receiver_depth is_get (get_field (parse_iter p)) < length (stack p)"
      and n: "gvn_type (stack p ! receiver_depth is_get (get_field (parse_iter p))) = PtrType Null"
  shows "do_field_access cfg is_get True p
         = Inr ((emit (E_null_check (stack p ! receiver_depth is_get (get_field (parse_iter p)))) p)
                 \<lparr>stopped := True\<rparr>)"
  using assms
  by (auto simp: do_field_access_def Let_def reaches_object_pointer_def receiver_depth_def
      peek_def null_check_def)

text \<open>
  C9.  An instance field get or put that completes.  When the access reaches the code for
  the object pointer, the receiver is on the operand stack at the depth of the access (on
  top for a get, under the value to store for a put) and its null check is the first event
  recorded, so that it comes before every address computation; nothing else is recorded
  when the receiver is provably null.  For every completed instance access, an address
  computation that is recorded has the null check of the receiver recorded before it; and
  when the receiver is provably null (and, as \<open>do_field_access\<close> asserts, the access is not a
  put to a field of a value type) the path is stopped, no load and no store is recorded and
  the operand stack is unchanged.  An access with a provably null receiver that reaches the
  code for the object pointer does complete: it returns the state it was given with the
  null check recorded and the path stopped.
\<close>

theorem receiver_null_check:
  "(do_field_access cfg is_get True p = Inr p' \<longrightarrow>
      (reaches_object_pointer is_get (get_field (parse_iter p)) \<longrightarrow>
         receiver_depth is_get (get_field (parse_iter p)) < length (stack p)
         \<and> (\<exists>new. emitted p p'
               = E_null_check (stack p ! receiver_depth is_get (get_field (parse_iter p))) # new
               \<and> (gvn_type (stack p ! receiver_depth is_get (get_field (parse_iter p)))
                    = PtrType Null \<longrightarrow> new = [])))
      \<and> (list_ex is_address (emitted p p') \<longrightarrow>
            E_null_check (stack p ! receiver_depth is_get (get_field (parse_iter p)))
              \<in> set (before_address (emitted p p')))
      \<and> (receiver_depth is_get (get_field (parse_iter p)) < length (stack p)
            \<and> gvn_type (stack p ! receiver_depth is_get (get_field (parse_iter p)))
                = PtrType Null
            \<and> (if is_valuetype (holder (get_field (parse_iter p))) then is_get else True) \<longrightarrow>
            stopped p' \<and> \<not> list_ex is_load (emitted p p') \<and> \<not> list_ex is_store (emitted p p')
            \<and> stack p' = stack p))
   \<and> (reaches_object_pointer is_get (get_field (parse_iter p))
       \<and> assert_that cfg (get_field_will_link (parse_iter p))
       \<and> assert_that cfg (will_link (get_field (parse_iter p)))
       \<and> receiver_depth is_get (get_field (parse_iter p)) < length (stack p)
       \<and> gvn_type (stack p ! receiver_depth is_get (get_field (parse_iter p))) = PtrType Null \<longrightarrow>
       do_field_access cfg is_get True p
         = Inr ((emit (E_null_check (stack p ! receiver_depth is_get (get_field (parse_iter p)))) p)
                 \<lparr>stopped := True\<rparr>))"
proof -
  have v: "is_ValueType n \<Longrightarrow> gvn_type n \<noteq> PtrType Null" for n
    by (cases n) simp_all
  have z: "stack p \<noteq> [] \<Longrightarrow> stack p ! 0 = hd (stack p)"
    by (cases "stack p") simp_all
  have a: "do_field_access cfg is_get True p = Inr p' \<Longrightarrow>
      (reaches_object_pointer is_get (get_field (parse_iter p)) \<longrightarrow>
         receiver_depth is_get (get_field (parse_iter p)) < length (stack p)
         \<and> (\<exists>new. emitted p p'
               = E_null_check (stack p ! receiver_depth is_get (get_field (parse_iter p))) # new
               \<and> (gvn_type (stack p ! receiver_depth is_get (get_field (parse_iter p)))
                    = PtrType Null \<longrightarrow> new = [])))
      \<and> (list_ex is_address (emitted p p') \<longrightarrow>
            E_null_check (stack p ! receiver_depth is_get (get_field (parse_iter p)))
              \<in> set (before_address (emitted p p')))
      \<and> (receiver_depth is_get (get_field (parse_iter p)) < length (stack p)
            \<and> gvn_type (stack p ! receiver_depth is_get (get_field (parse_iter p)))
                = PtrType Null
            \<and> (if is_valuetype (holder (get_field (parse_iter p))) then is_get else True) \<longrightarrow>
            stopped p' \<and> \<not> list_ex is_load (emitted p p') \<and> \<not> list_ex is_store (emitted p p')
            \<and> stack p' = stack p)"
    using instance_access_cases [of cfg is_get p p'] v [of "hd (stack p)"] z
    by (auto simp: before_address_def receiver_depth_def reaches_object_pointer_def)
  from a null_receiver_access [of is_get p cfg] show ?thesis by blast
qed

theorem receiver_null_check_witness:
  "(\<exists>p'. do_field_access example_config True True receiver_parse = Inr p'
       \<and> (\<exists>new. emitted receiver_parse p' = E_null_check receiver # new)
       \<and> list_ex is_address (emitted receiver_parse p')
       \<and> E_null_check receiver \<in> set (before_address (emitted receiver_parse p')))
   \<and> (\<exists>p'. do_field_access example_config False True example_parse = Inr p'
       \<and> (\<exists>new. emitted example_parse p' = E_null_check (Value 2 (PtrType BotPTR)) # new)
       \<and> list_ex is_address (emitted example_parse p')
       \<and> list_ex is_store (emitted example_parse p')
       \<and> E_null_check (Value 2 (PtrType BotPTR))
             \<in> set (before_address (emitted example_parse p')))
   \<and> (\<exists>p'. do_field_access example_config True True null_receiver_parse = Inr p'
       \<and> emitted null_receiver_parse p' = [E_null_check null_node]
       \<and> stopped p'
       \<and> \<not> list_ex is_load (emitted null_receiver_parse p')
       \<and> \<not> list_ex is_store (emitted null_receiver_parse p')
       \<and> stack p' = stack null_receiver_parse)
   \<and> (\<exists>p'. do_field_access example_config False True null_receiver_put_parse = Inr p'
       \<and> emitted null_receiver_put_parse p' = [E_null_check null_node]
       \<and> stopped p'
       \<and> \<not> list_ex is_load (emitted null_receiver_put_parse p')
       \<and> \<not> list_ex is_store (emitted null_receiver_put_parse p')
       \<and> stack p' = stack null_receiver_put_parse)"
proof -
  have "\<exists>p'. do_field_access example_config True True receiver_parse = Inr p'
          \<and> list_ex is_address (emitted receiver_parse p')"
    by (simp add: do_field_access_def do_get_xxx_def field_load_type_def receiver_parse_def
        receiver_def example_defs Let_def assert_that_def peek_def null_check_def pop_def
        basic_plus_adr_def make_load_def type2size_def emitted_def)
  then obtain p1 where
    r1: "do_field_access example_config True True receiver_parse = Inr p1" and
    a1: "list_ex is_address (emitted receiver_parse p1)" by blast
  have s1: "stack receiver_parse ! receiver_depth True (get_field (parse_iter receiver_parse))
              = receiver"
           "reaches_object_pointer True (get_field (parse_iter receiver_parse))"
    by (simp_all add: receiver_depth_def receiver_parse_def reaches_object_pointer_def
        example_defs)
  have "\<exists>p'. do_field_access example_config False True example_parse = Inr p'
          \<and> list_ex is_address (emitted example_parse p')
          \<and> list_ex is_store (emitted example_parse p')"
    by (simp add: do_field_access_def do_put_xxx_def example_defs Let_def assert_that_def
        peek_def null_check_def pop_def basic_plus_adr_def store_to_memory_def type2size_def
        note_field_write_def emitted_def release_if_reference_def is_reference_def)
  then obtain p2 where
    r2: "do_field_access example_config False True example_parse = Inr p2" and
    a2: "list_ex is_address (emitted example_parse p2)" and
    t2: "list_ex is_store (emitted example_parse p2)" by blast
  have s2: "stack example_parse ! receiver_depth False (get_field (parse_iter example_parse))
              = Value 2 (PtrType BotPTR)"
           "reaches_object_pointer False (get_field (parse_iter example_parse))"
    by (simp_all add: receiver_depth_def reaches_object_pointer_def example_defs)
  have n3: "reaches_object_pointer True (get_field (parse_iter null_receiver_parse))"
           "assert_that example_config (get_field_will_link (parse_iter null_receiver_parse))"
           "assert_that example_config (will_link (get_field (parse_iter null_receiver_parse)))"
           "receiver_depth True (get_field (parse_iter null_receiver_parse))
              < length (stack null_receiver_parse)"
           "gvn_type (stack null_receiver_parse
              ! receiver_depth True (get_field (parse_iter null_receiver_parse))) = PtrType Null"
           "stack null_receiver_parse
              ! receiver_depth True (get_field (parse_iter null_receiver_parse)) = null_node"
           "\<not> is_valuetype (holder (get_field (parse_iter null_receiver_parse)))"
    by (simp_all add: receiver_depth_def reaches_object_pointer_def null_receiver_parse_def
        assert_that_def example_defs)
  have n4: "reaches_object_pointer False (get_field (parse_iter null_receiver_put_parse))"
           "assert_that example_config (get_field_will_link (parse_iter null_receiver_put_parse))"
           "assert_that example_config
              (will_link (get_field (parse_iter null_receiver_put_parse)))"
           "receiver_depth False (get_field (parse_iter null_receiver_put_parse))
              < length (stack null_receiver_put_parse)"
           "gvn_type (stack null_receiver_put_parse
              ! receiver_depth False (get_field (parse_iter null_receiver_put_parse)))
              = PtrType Null"
           "stack null_receiver_put_parse
              ! receiver_depth False (get_field (parse_iter null_receiver_put_parse)) = null_node"
           "\<not> is_valuetype (holder (get_field (parse_iter null_receiver_put_parse)))"
    by (simp_all add: receiver_depth_def reaches_object_pointer_def null_receiver_put_parse_def
        assert_that_def example_defs)
  from receiver_null_check [of example_config True receiver_parse p1] r1 a1 s1
  have w1: "\<exists>p'. do_field_access example_config True True receiver_parse = Inr p'
       \<and> (\<exists>new. emitted receiver_parse p' = E_null_check receiver # new)
       \<and> list_ex is_address (emitted receiver_parse p')
       \<and> E_null_check receiver \<in> set (before_address (emitted receiver_parse p'))"
    by auto
  from receiver_null_check [of example_config False example_parse p2] r2 a2 t2 s2
  have w2: "\<exists>p'. do_field_access example_config False True example_parse = Inr p'
       \<and> (\<exists>new. emitted example_parse p' = E_null_check (Value 2 (PtrType BotPTR)) # new)
       \<and> list_ex is_address (emitted example_parse p')
       \<and> list_ex is_store (emitted example_parse p')
       \<and> E_null_check (Value 2 (PtrType BotPTR))
             \<in> set (before_address (emitted example_parse p'))"
    by auto
  from receiver_null_check [of example_config True null_receiver_parse p'] n3
  have e3: "do_field_access example_config True True null_receiver_parse
              = Inr ((emit (E_null_check null_node) null_receiver_parse)\<lparr>stopped := True\<rparr>)"
    for p' by simp
  from receiver_null_check [of example_config True null_receiver_parse
      "(emit (E_null_check null_node) null_receiver_parse)\<lparr>stopped := True\<rparr>"] n3 e3
  have w3: "\<exists>p'. do_field_access example_config True True null_receiver_parse = Inr p'
       \<and> emitted null_receiver_parse p' = [E_null_check null_node]
       \<and> stopped p'
       \<and> \<not> list_ex is_load (emitted null_receiver_parse p')
       \<and> \<not> list_ex is_store (emitted null_receiver_parse p')
       \<and> stack p' = stack null_receiver_parse"
    by auto
  from receiver_null_check [of example_config False null_receiver_put_parse p'] n4
  have e4: "do_field_access example_config False True null_receiver_put_parse
              = Inr ((emit (E_null_check null_node) null_receiver_put_parse)\<lparr>stopped := True\<rparr>)"
    for p' by simp
  from receiver_null_check [of example_config False null_receiver_put_parse
      "(emit (E_null_check null_node) null_receiver_put_parse)\<lparr>stopped := True\<rparr>"] n4 e4
  have w4: "\<exists>p'. do_field_access example_config False True null_receiver_put_parse = Inr p'
       \<and> emitted null_receiver_put_parse p' = [E_null_check null_node]
       \<and> stopped p'
       \<and> \<not> list_ex is_load (emitted null_receiver_put_parse p')
       \<and> \<not> list_ex is_store (emitted null_receiver_put_parse p')
       \<and> stack p' = stack null_receiver_put_parse"
    by auto
  from w1 w2 w3 w4 show ?thesis by blast
qed

subsection \<open>Array allocation of several dimensions\<close>

lemma jint_wrap_id: "- 2147483648 \<le> x \<Longrightarrow> x < 2147483648 \<Longrightarrow> jint_wrap x = x"
  by (simp add: jint_wrap_def)

lemma sub_allocations_nonneg:
  "0 \<le> fanout \<Longrightarrow> list_all (\<lambda>d. 0 < d) ds \<Longrightarrow> 0 \<le> sub_allocations fanout ds"
  by (induction ds arbitrary: fanout) auto

lemma pop_lengths_stack:
  "stack p = rev lens @ rest \<Longrightarrow> length lens = n \<Longrightarrow>
     pop_lengths n p = Inr (lens, p\<lparr>stack := rest\<rparr>)"
proof (induction lens arbitrary: p n rule: rev_induct)
  case Nil
  then show ?case by simp
next
  case (snoc x xs)
  from snoc.prems obtain j where n: "n = Suc j" "length xs = j" by (cases n) auto
  from snoc.prems have s: "stack p = x # rev xs @ rest" by simp
  have "pop_lengths j (p\<lparr>stack := rev xs @ rest\<rparr>)
          = Inr (xs, p\<lparr>stack := rev xs @ rest\<rparr>\<lparr>stack := rest\<rparr>)"
    by (rule snoc.IH) (simp_all add: n)
  with s n show ?case by (simp add: pop_def)
qed

lemma count_expansion_Cons:
  "count_expansion lim (len # ls) fanout cnt =
     (if dim_con len \<le> 0 \<or> dim_con len > lim
         \<or> jint_wrap (cnt + jint_wrap (fanout * dim_con len)) > lim then 0
      else count_expansion lim ls (jint_wrap (fanout * dim_con len))
             (jint_wrap (cnt + jint_wrap (fanout * dim_con len))))"
  by (simp add: dim_con_def Let_def)

lemma count_expansion_step:
  assumes lim: "lim \<le> 100" and f: "1 \<le> fanout" "fanout \<le> lim" and c: "1 \<le> cnt" "cnt \<le> lim"
  shows "count_expansion lim ls fanout cnt =
           (if list_all (\<lambda>len. 0 < dim_con len) ls
               \<and> cnt + sub_allocations fanout (map dim_con ls) \<le> lim
            then cnt + sub_allocations fanout (map dim_con ls) else 0)"
  using f c
proof (induction ls arbitrary: fanout cnt)
  case Nil
  then show ?case by simp
next
  case (Cons len ls)
  let ?d = "dim_con len"
  show ?case
  proof (cases "?d \<le> 0 \<or> ?d > lim")
    case True
    then show ?thesis
    proof
      assume "?d \<le> 0"
      then show ?thesis by (auto simp add: count_expansion_Cons simp del: count_expansion.simps)
    next
      assume d: "?d > lim"
      with Cons.prems lim have pos: "0 < ?d" by linarith
      from d Cons.prems have "lim < fanout * ?d"
        by (smt (verit) mult_le_cancel_right1 pos)
      moreover have "list_all (\<lambda>len. 0 < dim_con len) ls \<Longrightarrow>
                     0 \<le> sub_allocations (fanout * ?d) (map dim_con ls)"
        using sub_allocations_nonneg [of "fanout * ?d" "map dim_con ls"] pos Cons.prems
        by (simp add: list_all_iff)
      ultimately have "\<not> (list_all (\<lambda>len. 0 < dim_con len) (len # ls)
                 \<and> cnt + sub_allocations fanout (map dim_con (len # ls)) \<le> lim)"
        using Cons.prems by auto
      with d show ?thesis by (auto simp add: count_expansion_Cons simp del: count_expansion.simps)
    qed
  next
    case False
    then have d: "0 < ?d" "?d \<le> lim" by auto
    from d Cons.prems lim have b: "1 \<le> fanout * ?d" "fanout * ?d \<le> 10000"
      using mult_mono [of fanout 100 ?d 100] by (auto simp: mult_le_cancel_right1 intro: order_trans)
    then have w1: "jint_wrap (fanout * ?d) = fanout * ?d" by (simp add: jint_wrap_id)
    from b Cons.prems lim have w2: "jint_wrap (cnt + fanout * ?d) = cnt + fanout * ?d"
      by (simp add: jint_wrap_id)
    show ?thesis
    proof (cases "cnt + fanout * ?d > lim")
      case True
      have "list_all (\<lambda>len. 0 < dim_con len) ls \<Longrightarrow>
                     0 \<le> sub_allocations (fanout * ?d) (map dim_con ls)"
        using sub_allocations_nonneg [of "fanout * ?d" "map dim_con ls"] b
        by (simp add: list_all_iff)
      with True have "\<not> (list_all (\<lambda>len. 0 < dim_con len) (len # ls)
                 \<and> cnt + sub_allocations fanout (map dim_con (len # ls)) \<le> lim)"
        by auto
      with True w1 w2 show ?thesis
        by (auto simp add: count_expansion_Cons simp del: count_expansion.simps)
    next
      case False
      with b Cons.prems have p: "1 \<le> fanout * ?d" "fanout * ?d \<le> lim"
        "1 \<le> cnt + fanout * ?d" "cnt + fanout * ?d \<le> lim" by auto
      from Cons.IH [OF p] False d w1 w2 show ?thesis
        by (auto simp add: count_expansion_Cons add.assoc simp del: count_expansion.simps)
    qed
  qed
qed

lemma count_expansion_ok:
  assumes lim: "lim \<le> 100"
  shows "(1 \<le> count_expansion lim ls 1 1 \<and> count_expansion lim ls 1 1 \<le> lim)
         \<longleftrightarrow> small_constant_dims lim ls"
proof (cases "1 \<le> lim")
  case True
  have n: "list_all (\<lambda>len. 0 < dim_con len) ls \<Longrightarrow> 0 \<le> sub_allocations 1 (map dim_con ls)"
    using sub_allocations_nonneg [of 1 "map dim_con ls"] by (simp add: list_all_iff)
  from count_expansion_step [OF lim, of 1 1 ls] True n show ?thesis
    by (auto simp: small_constant_dims_def predicted_allocations_def)
next
  case False
  have n: "list_all (\<lambda>len. 0 < dim_con len) ls \<Longrightarrow> 0 \<le> sub_allocations 1 (map dim_con ls)"
    using sub_allocations_nonneg [of 1 "map dim_con ls"] by (simp add: list_all_iff)
  from False n have r: "\<not> small_constant_dims lim ls"
    by (auto simp: small_constant_dims_def predicted_allocations_def)
  from False have "\<not> (1 \<le> count_expansion lim ls 1 1 \<and> count_expansion lim ls 1 1 \<le> lim)"
    by auto
  with r show ?thesis by simp
qed


lemma extends_without_call_refl: "extends_without_call p p"
  by (simp add: extends_without_call_def)

lemma extends_without_call_trans:
  "extends_without_call p q \<Longrightarrow> extends_without_call q r \<Longrightarrow> extends_without_call p r"
  by (auto simp: extends_without_call_def)

lemma extends_without_call_emit:
  "\<not> is_runtime_call e \<Longrightarrow> extends_without_call p (emit e p)"
  by (simp add: extends_without_call_def)

lemma expand_ok:
  "expandable k lengths nd \<Longrightarrow>
     \<exists>a p'. expand_multianewarray cfg k lengths nd nargs p = Inr (a, p')
        \<and> extends_without_call p p' \<and> list_ex is_new_array (emitted p p')"
  "(i < n \<Longrightarrow> expandable k1 lengths1 nd1) \<Longrightarrow>
     \<exists>p'. expand_elems cfg k1 lengths1 nd1 nargs1 array i n q = Inr p'
        \<and> extends_without_call q p'"
proof (induction cfg k lengths nd nargs p and cfg k1 lengths1 nd1 nargs1 array i n q
       rule: expand_multianewarray_expand_elems.induct)
  case (1 cfg array_klass lengths ndimensions nargs p)
  from "1.prems" obtain len rest where l: "lengths = Some len # rest"
    by (cases lengths) (auto split: option.splits)
  define a where "a = AllocateArrayNode (length (events p)) (makecon_klass array_klass) len nargs"
  define p1 where "p1 = emit (E_new_array a) p"
  have na: "new_array (makecon_klass array_klass) len nargs p = (a, p1)"
    by (simp add: new_array_def a_def p1_def Let_def)
  have e1: "extends_without_call p p1"
    unfolding p1_def by (rule extends_without_call_emit) simp
  have n1: "events p1 = events p @ [E_new_array a]" by (simp add: p1_def)
  show ?case
  proof (cases "1 < ndimensions")
    case False
    with l na e1 n1 show ?thesis
      by (subst expand_multianewarray.simps) (simp add: emitted_def)
  next
    case True
    with "1.prems" l obtain k1 where
      d: "0 \<le> find_int_con len (- 1)" and ek: "element_klass array_klass = Some k1" and
      ak: "is_array_klass k1" and ex: "expandable k1 rest (ndimensions - 1)"
      by (auto simp: dim_con_def split: option.splits)
    from "1.IH" [OF l refl na [symmetric] refl True refl _ ek] d ak ex
    obtain p2 where
      r: "expand_elems cfg k1 rest (ndimensions - 1) nargs a 0 (find_int_con len (- 1)) p1
            = Inr p2" and
      e2: "extends_without_call p1 p2"
      by auto
    from e2 n1 have "list_ex is_new_array (emitted p p2)"
      by (auto simp: extends_without_call_def emitted_def)
    with True l na d ek ak r extends_without_call_trans [OF e1 e2] show ?thesis
      by (subst expand_multianewarray.simps) simp
  qed
next
  case (2 cfg array_klass_1 lengths ndimensions_1 nargs array i length_con p)
  show ?case
  proof (cases "i < length_con")
    case False
    then show ?thesis
      by (subst expand_elems.simps) (simp add: extends_without_call_refl)
  next
    case True
    with "2.prems" have ex: "expandable array_klass_1 lengths ndimensions_1" by simp
    from "2.IH"(1) [OF True ex] obtain elem p1 where
      r1: "expand_multianewarray cfg array_klass_1 lengths ndimensions_1 nargs p
             = Inr (elem, p1)" and
      e1: "extends_without_call p p1" by blast
    define off where "off = base_offset_in_bytes_T_OBJECT cfg + i * 2 ^ LogBytesPerHeapOop cfg"
    define p2 where "p2 = emit (E_basic_plus_adr (AddPNode array array off)) p1"
    define p3 where "p3 = store_oop_to_array array (AddPNode array array off) TypeAryPtr_OOPS
                            elem T_OBJECT unordered p2"
    have b: "basic_plus_adr array array off p1 = (AddPNode array array off, p2)"
      by (simp add: basic_plus_adr_def p2_def Let_def)
    have e3: "extends_without_call p1 p3"
      unfolding p3_def p2_def store_oop_to_array_def
      by (rule extends_without_call_trans [OF extends_without_call_emit
            extends_without_call_emit]) simp_all
    from "2.IH"(2) [OF True r1 refl off_def refl b [symmetric] p3_def] ex
    obtain p4 where
      r4: "expand_elems cfg array_klass_1 lengths ndimensions_1 nargs array (i + 1)
             length_con p3 = Inr p4" and
      e4: "extends_without_call p3 p4" by blast
    from True r1 b r4 extends_without_call_trans [OF e1 extends_without_call_trans [OF e3 e4]]
    show ?thesis
      by (subst expand_elems.simps) (simp add: off_def [symmetric] p3_def [symmetric])
  qed
qed


lemma array_dimensions_is_array: "1 \<le> array_dimensions k \<Longrightarrow> is_array_klass k"
  by (cases k) simp_all

lemma expandable_lengths:
  "ls \<noteq> [] \<Longrightarrow> length ls \<le> array_dimensions k \<Longrightarrow>
   list_all (\<lambda>len. 0 \<le> dim_con len) (butlast ls) \<Longrightarrow>
     expandable k (map Some ls @ [None]) (length ls)"
proof (induction ls arbitrary: k)
  case Nil
  then show ?case by simp
next
  case (Cons l rest)
  show ?case
  proof (cases "rest = []")
    case True
    then show ?thesis by simp
  next
    case False
    with Cons.prems obtain b k1 where k: "k = ObjArray b k1"
      and d: "length rest \<le> array_dimensions k1"
      by (cases k) (auto simp: Suc_le_eq intro: Suc_leI dest: length_greater_0_conv [THEN iffD2])
    from False d have a: "is_array_klass k1"
      by (intro array_dimensions_is_array) (cases rest, auto)
    from Cons.prems False have p: "0 \<le> dim_con l" "list_all (\<lambda>len. 0 \<le> dim_con len) (butlast rest)"
      by auto
    from Cons.IH [OF False d p(2)] k a p(1) show ?thesis by simp
  qed
qed

lemma fill_dims_frame:
  "stack (fill_dims dims ls j p) = stack p
   \<and> (\<exists>new. events (fill_dims dims ls j p) = events p @ new
         \<and> runtime_calls new = [])"
proof (induction ls arbitrary: j p)
  case Nil
  then show ?case by (simp add: runtime_calls_def List.map_filter_simps)
next
  case (Cons l ls)
  from Cons.IH [of "j + 1" "store_to_memory (array_element_address dims (intcon j) T_INT) l T_INT
        TypeAryPtr_INTS unordered False
        (emit (E_array_element_address (array_element_address dims (intcon j) T_INT)) p)"]
  show ?case
    by (auto simp: Let_def store_to_memory_def runtime_calls_def List.map_filter_simps
        runtime_call_def List.map_filter_def)
qed

lemma runtime_calls_none: "\<not> list_ex is_runtime_call evs \<Longrightarrow> runtime_calls evs = []"
proof (induction evs)
  case Nil
  then show ?case by (simp add: runtime_calls_def List.map_filter_simps)
next
  case (Cons e evs)
  then show ?case
    by (cases e) (simp_all add: runtime_calls_def List.map_filter_simps runtime_call_def)
qed

lemma runtime_calls_append: "runtime_calls (xs @ ys) = runtime_calls xs @ runtime_calls ys"
  by (simp add: runtime_calls_def List.map_filter_def)

lemma multianewarray_inline:
  assumes st: "stack p = rev lens @ rest"
      and n: "length lens = get_dimensions (parse_iter p)"
      and ne: "lens \<noteq> []"
      and ad: "get_dimensions (parse_iter p) \<le> array_dimensions (get_klass (parse_iter p))"
      and wl: "assert_that cfg (get_klass_will_link (parse_iter p))"
      and c: "length lens = 1 \<or> small_constant_dims (expand_limit_of cfg) (butlast lens)"
  shows "\<exists>p' a. do_multianewarray cfg p = Inr p' \<and> stack p' = a # rest
           \<and> runtime_calls (emitted p p') = [] \<and> list_ex is_new_array (emitted p p')"
proof -
  let ?k = "get_klass (parse_iter p)"
  let ?p2 = "(kill_dead_locals p)\<lparr>stack := rest\<rparr>"
  from ne n ad have ak: "is_array_klass ?k"
    by (intro array_dimensions_is_array) (cases lens, auto)
  have pl: "pop_lengths (get_dimensions (parse_iter p)) (kill_dead_locals p) = Inr (lens, ?p2)"
    by (rule pop_lengths_stack) (simp_all add: st n kill_dead_locals_def)
  have tk: "take (get_dimensions (parse_iter p) - 1) lens = butlast lens"
    by (simp add: n [symmetric] butlast_conv_take)
  have lim: "expand_limit_of cfg \<le> 100" by (simp add: expand_limit_of_def)
  from c have nn: "list_all (\<lambda>len. 0 \<le> dim_con len) (butlast lens)"
  proof
    assume "length lens = 1"
    then have "butlast lens = []" by (cases lens) auto
    then show ?thesis by simp
  next
    assume "small_constant_dims (expand_limit_of cfg) (butlast lens)"
    then show ?thesis
      by (auto simp: small_constant_dims_def list_all_iff intro: less_imp_le)
  qed
  from ad n have "length lens \<le> array_dimensions ?k" by simp
  from expandable_lengths [OF ne this nn] n
  have ex: "expandable ?k (map Some lens @ [None]) (get_dimensions (parse_iter p))" by simp
  from expand_ok(1) [OF ex, of cfg 0 ?p2] obtain a p3 where
    r: "expand_multianewarray cfg ?k (map Some lens @ [None]) (get_dimensions (parse_iter p))
          0 ?p2 = Inr (a, p3)" and
    e: "extends_without_call ?p2 p3" and
    na: "list_ex is_new_array (emitted ?p2 p3)" by blast
  from e obtain new where
    s3: "stack p3 = rest" and e3: "events p3 = events p @ E_kill_dead_locals # new" and
    nc: "\<not> list_ex is_runtime_call new"
    by (auto simp: extends_without_call_def kill_dead_locals_def)
  from na e3 have na': "list_ex is_new_array new"
    by (simp add: emitted_def kill_dead_locals_def)
  have cond: "get_dimensions (parse_iter p) = 1
              \<or> (1 \<le> count_expansion (expand_limit_of cfg) (butlast lens) 1 1
                 \<and> count_expansion (expand_limit_of cfg) (butlast lens) 1 1 \<le> expand_limit_of cfg)"
    using c count_expansion_ok [OF lim, of "butlast lens"] n by auto
  from cond have d: "do_multianewarray cfg p = Inr (push a p3)"
    using ak wl pl r tk
    by (simp add: do_multianewarray_def Let_def expand_limit_of_def [symmetric])
  from s3 e3 nc na' runtime_calls_none [OF nc] show ?thesis
    unfolding d
    by (simp add: emitted_def runtime_calls_def List.map_filter_simps runtime_call_def)
qed


lemma runtime_calls_simps:
  "runtime_calls [] = []"
  "runtime_calls (e # es) =
     (case runtime_call e of None \<Rightarrow> runtime_calls es | Some c \<Rightarrow> c # runtime_calls es)"
  by (simp_all add: runtime_calls_def List.map_filter_simps split: option.splits)

lemma multianewarray_out_of_line:
  assumes st: "stack p = rev lens @ rest"
      and n: "length lens = get_dimensions (parse_iter p)"
      and two: "2 \<le> length lens"
      and ak: "is_array_klass (get_klass (parse_iter p))"
      and wl: "assert_that cfg (get_klass_will_link (parse_iter p))"
      and c: "\<not> small_constant_dims (expand_limit_of cfg) (butlast lens)"
  shows "\<exists>p' c. do_multianewarray cfg p = Inr p'
           \<and> stack p' =
               CheckCastPPNode (ProjNode c)
                 (case find_int_type (hd lens) of
                    None \<Rightarrow> exact_not_null_array (get_klass (parse_iter p))
                  | Some ltype \<Rightarrow>
                      cast_to_size ltype (exact_not_null_array (get_klass (parse_iter p))))
               # rest
           \<and> runtime_calls (emitted p p') = [c]
           \<and> runtime_entry_of c = Some (entry_for_rank (length lens))"
proof -
  let ?k = "get_klass (parse_iter p)"
  let ?nd = "get_dimensions (parse_iter p)"
  let ?p2 = "(kill_dead_locals p)\<lparr>stack := rest\<rparr>"
  have pl: "pop_lengths ?nd (kill_dead_locals p) = Inr (lens, ?p2)"
    by (rule pop_lengths_stack) (simp_all add: st n kill_dead_locals_def)
  have tk: "take (?nd - 1) lens = butlast lens"
    by (simp add: n [symmetric] butlast_conv_take)
  have lim: "expand_limit_of cfg \<le> 100" by (simp add: expand_limit_of_def)
  from two have ne: "lens \<noteq> []" by auto
  then have h: "lens ! 0 = hd lens" by (simp add: hd_conv_nth)
  from two n have n1: "?nd \<noteq> 1" by simp
  have cond: "\<not> (1 \<le> count_expansion (expand_limit_of cfg) (butlast lens) 1 1
                 \<and> count_expansion (expand_limit_of cfg) (butlast lens) 1 1 \<le> expand_limit_of cfg)"
    using c count_expansion_ok [OF lim, of "butlast lens"] by simp
  have s2: "stack ?p2 = rest" "events ?p2 = events p @ [E_kill_dead_locals]"
    by (simp_all add: kill_dead_locals_def)
  show ?thesis
  proof (cases "?nd = 2 \<or> ?nd = 3 \<or> ?nd = 4 \<or> ?nd = 5")
    case True
    then show ?thesis
      using ak wl pl tk n1 cond h s2 n
      by (auto simp: do_multianewarray_def Let_def expand_limit_of_def [symmetric]
          make_runtime_call_def make_slow_call_ex_def emitted_def runtime_calls_simps
          runtime_call_def runtime_entry_of_def entry_for_rank_def
          exact_not_null_array_def split: option.splits)
  next
    case False
    define dims where "dims = AllocateArrayNode (Suc (length (events p)))
                                (makecon_klass (TypeArray T_INT)) (intcon (int ?nd)) 0"
    define q1 where "q1 = emit (E_new_array dims) ?p2"
    have na: "new_array (makecon_klass (TypeArray T_INT)) (intcon (int ?nd)) 0 ?p2 = (dims, q1)"
      by (simp add: new_array_def Let_def dims_def q1_def kill_dead_locals_def)
    from fill_dims_frame [of dims lens 0 q1] obtain new where
      fs: "stack (fill_dims dims lens 0 q1) = rest" and
      fe: "events (fill_dims dims lens 0 q1)
             = events p @ E_kill_dead_locals # E_new_array dims # new" and
      fc: "runtime_calls new = []"
      by (auto simp: q1_def kill_dead_locals_def)
    from False n1 show ?thesis
      using ak wl pl tk cond h na fs fe fc n
      by (auto simp: do_multianewarray_def Let_def expand_limit_of_def [symmetric]
          make_runtime_call_def make_slow_call_ex_def emitted_def
          runtime_calls_append runtime_entry_of_def entry_for_rank_def
          exact_not_null_array_def runtime_calls_simps runtime_call_def
          split: option.splits)
  qed
qed


text \<open>
  C3, as the code has it.  \<open>do_multianewarray\<close>, given as many lengths on the stack as
  the bytecode has dimensions (at least one, and no more than the array class has),
  expands inline, with allocations and no runtime call, exactly when there is one
  dimension or the length of every dimension but the last (the innermost) is a known
  positive constant and the predicted count of allocations is within the limit, which is
  the smaller of \<open>MultiArrayExpandLimit\<close> and 100; otherwise it records exactly one runtime
  call.
\<close>

theorem multianewarray_strategy:
  assumes st: "stack p = rev lens @ rest"
      and n: "length lens = get_dimensions (parse_iter p)"
      and ne: "lens \<noteq> []"
      and ad: "get_dimensions (parse_iter p) \<le> array_dimensions (get_klass (parse_iter p))"
      and wl: "assert_that cfg (get_klass_will_link (parse_iter p))"
  shows "expand_limit_of cfg \<le> 100
       \<and> (\<exists>p'. do_multianewarray cfg p = Inr p'
             \<and> (if length lens = 1 \<or> small_constant_dims (expand_limit_of cfg) (butlast lens)
                then runtime_calls (emitted p p') = [] \<and> list_ex is_new_array (emitted p p')
                else length (runtime_calls (emitted p p')) = 1))"
proof (cases "length lens = 1 \<or> small_constant_dims (expand_limit_of cfg) (butlast lens)")
  case True
  from multianewarray_inline [OF st n ne ad wl True] True show ?thesis
    by (auto simp: expand_limit_of_def)
next
  case False
  then have "length lens \<noteq> 1" by simp
  with ne have two: "2 \<le> length lens"
    by (cases lens) (auto simp: Suc_le_eq)
  from ne n ad have ak: "is_array_klass (get_klass (parse_iter p))"
    by (intro array_dimensions_is_array) (cases lens, auto)
  from False have c: "\<not> small_constant_dims (expand_limit_of cfg) (butlast lens)" by simp
  from multianewarray_out_of_line [OF st n two ak wl c] False show ?thesis
    by (auto simp: expand_limit_of_def)
qed

theorem multianewarray_strategy_witness:
  "(\<exists>p'. do_multianewarray limit_100_config
            (multianewarray_parse 3 [intcon 2, intcon 3, variable_length]) = Inr p'
       \<and> runtime_calls
            (emitted (multianewarray_parse 3 [intcon 2, intcon 3, variable_length]) p') = []
       \<and> list_ex is_new_array
            (emitted (multianewarray_parse 3 [intcon 2, intcon 3, variable_length]) p'))
   \<and> (\<exists>p'. do_multianewarray example_config
            (multianewarray_parse 3 [intcon 2, intcon 3, variable_length]) = Inr p'
       \<and> length (runtime_calls
            (emitted (multianewarray_parse 3 [intcon 2, intcon 3, variable_length]) p')) = 1)"
proof -
  let ?lens = "[intcon 2, intcon 3, variable_length]"
  let ?p = "multianewarray_parse 3 ?lens"
  have st: "stack ?p = rev ?lens @ [Value 9 OtherType]"
    by (simp add: multianewarray_parse_def)
  have n: "length ?lens = get_dimensions (parse_iter ?p)"
    by (simp add: multianewarray_parse_def)
  have ne: "?lens \<noteq> []" by simp
  have ad: "get_dimensions (parse_iter ?p) \<le> array_dimensions (get_klass (parse_iter ?p))"
    by (simp add: multianewarray_example_defs)
  have wl: "assert_that c (get_klass_will_link (parse_iter ?p))" for c
    by (simp add: multianewarray_example_defs assert_that_def)
  have l1: "expand_limit_of limit_100_config = 100"
    by (simp add: expand_limit_of_def limit_100_config_def jint_wrap_def)
  have l2: "expand_limit_of example_config = 6"
    by (simp add: expand_limit_of_def example_config_def jint_wrap_def)
  have c1: "small_constant_dims 100 (butlast ?lens)"
    by (simp add: small_constant_dims_def predicted_allocations_def dim_con_def find_int_con_def)
  have c2: "\<not> small_constant_dims 6 (butlast ?lens)"
    by (simp add: small_constant_dims_def predicted_allocations_def dim_con_def find_int_con_def)
  from multianewarray_strategy [OF st n ne ad wl, of limit_100_config] c1 l1
       multianewarray_strategy [OF st n ne ad wl, of example_config] c2 l2
  show ?thesis by simp
qed

text \<open>
  C3 as the specification words it fails: with two dimensions, a first (outermost) length
  that is not constant and a second length 3, every length but the outermost is a known
  constant that is not negative and the predicted count is within a limit of 100, and yet
  \<open>do_multianewarray\<close> records the runtime call for two dimensions.
\<close>

theorem multianewarray_variable_outer_counterexample:
  "nonnegative_constant_dims (expand_limit_of limit_100_config) (tl [variable_length, intcon 3])
   \<and> runtime_calls
       (emitted_by (multianewarray_parse 2 [variable_length, intcon 3])
          (do_multianewarray limit_100_config
             (multianewarray_parse 2 [variable_length, intcon 3])))
     = [CallRuntimeNode 1 multianewarray2_Java
          [Some (makecon_klass int_array_3d), Some variable_length, Some (intcon 3),
           None, None, None]]"
proof -
  have a: "nonnegative_constant_dims (expand_limit_of limit_100_config)
             (tl [variable_length, intcon 3])"
    by (simp add: nonnegative_constant_dims_def predicted_allocations_def dim_con_def
        find_int_con_def expand_limit_of_def limit_100_config_def jint_wrap_def)
  have two: "(2::nat) = Suc (Suc 0)" by simp
  have b: "runtime_calls
       (emitted_by (multianewarray_parse 2 [variable_length, intcon 3])
          (do_multianewarray limit_100_config
             (multianewarray_parse 2 [variable_length, intcon 3])))
     = [CallRuntimeNode 1 multianewarray2_Java
          [Some (makecon_klass int_array_3d), Some variable_length, Some (intcon 3),
           None, None, None]]"
    unfolding multianewarray_parse_def two
    by (simp add: do_multianewarray_def Let_def int_array_3d_def limit_100_config_def
        variable_length_def example_defs assert_that_def kill_dead_locals_def pop_def
        find_int_con_def jint_wrap_def make_runtime_call_def make_slow_call_ex_def
        emitted_by_def emitted_def runtime_calls_simps runtime_call_def)
  from a b show ?thesis by simp
qed

lemma known_size_refined:
  "known_size (case find_int_type n of
                 None \<Rightarrow> exact_not_null_array k
               | Some ltype \<Rightarrow> cast_to_size ltype (exact_not_null_array k))
     = int_constant_of n"
  by (cases "gvn_type n")
     (simp_all add: find_int_type_def int_constant_of_def exact_not_null_array_def)

lemma refined_type_reading:
  "type_ptr (case find_int_type n of
               None \<Rightarrow> exact_not_null_array k
             | Some ltype \<Rightarrow> cast_to_size ltype (exact_not_null_array k)) = Some NotNull"
  "type_exact (case find_int_type n of
               None \<Rightarrow> exact_not_null_array k
             | Some ltype \<Rightarrow> cast_to_size ltype (exact_not_null_array k)) = Some True"
  "type_klass (case find_int_type n of
               None \<Rightarrow> exact_not_null_array k
             | Some ltype \<Rightarrow> cast_to_size ltype (exact_not_null_array k)) = Some k"
  by (cases "find_int_type n"; simp add: exact_not_null_array_def)+

lemma variable_length_not_small:
  "int_constant_of n = None \<Longrightarrow> \<not> small_constant_dims lim [n]"
  by (cases "gvn_type n")
     (auto simp: int_constant_of_def small_constant_dims_def dim_con_def find_int_con_def
        split: if_splits)

text \<open>
  C6.  \<open>do_multianewarray\<close> with two dimensions and a first (outermost) length that is
  not a known constant records exactly one runtime call, to the entry point for two
  dimensions, and pushes the result cast to a type that is not null and exact and has no
  known size.  Whenever it takes the runtime call (two or more dimensions, not
  expanded), the type pushed is the type made from the array class as it is, cast to
  not-null and exact, and its size is known exactly when the outermost length is a known
  constant, and is that constant; nothing else is done to the type.
\<close>

theorem multianewarray_runtime_call_type:
  assumes st: "stack p = rev lens @ rest"
      and n: "length lens = get_dimensions (parse_iter p)"
      and two: "2 \<le> length lens"
      and ak: "is_array_klass (get_klass (parse_iter p))"
      and wl: "assert_that cfg (get_klass_will_link (parse_iter p))"
  shows "(length lens = 2 \<and> int_constant_of (hd lens) = None \<longrightarrow>
            (\<exists>p' c T. do_multianewarray cfg p = Inr p'
               \<and> runtime_calls (emitted p p') = [c]
               \<and> runtime_entry_of c = Some multianewarray2_Java
               \<and> stack p' = CheckCastPPNode (ProjNode c) T # rest
               \<and> type_ptr T = Some NotNull \<and> type_exact T = Some True
               \<and> known_size T = None
               \<and> type_klass T = Some (get_klass (parse_iter p))))
       \<and> (\<not> small_constant_dims (expand_limit_of cfg) (butlast lens) \<longrightarrow>
            (\<exists>p' c T. do_multianewarray cfg p = Inr p'
               \<and> runtime_calls (emitted p p') = [c]
               \<and> runtime_entry_of c = Some (entry_for_rank (length lens))
               \<and> stack p' = CheckCastPPNode (ProjNode c) T # rest
               \<and> type_ptr T = Some NotNull \<and> type_exact T = Some True
               \<and> known_size T = int_constant_of (hd lens)
               \<and> type_klass T = Some (get_klass (parse_iter p))))"
proof -
  have g: "\<exists>p' c T. do_multianewarray cfg p = Inr p'
               \<and> runtime_calls (emitted p p') = [c]
               \<and> runtime_entry_of c = Some (entry_for_rank (length lens))
               \<and> stack p' = CheckCastPPNode (ProjNode c) T # rest
               \<and> type_ptr T = Some NotNull \<and> type_exact T = Some True
               \<and> known_size T = int_constant_of (hd lens)
               \<and> type_klass T = Some (get_klass (parse_iter p))"
    if c: "\<not> small_constant_dims (expand_limit_of cfg) (butlast lens)"
    using multianewarray_out_of_line [OF st n two ak wl c]
      known_size_refined [where n = "hd lens" and k = "get_klass (parse_iter p)"]
      refined_type_reading [where n = "hd lens" and k = "get_klass (parse_iter p)"]
    by metis
  have r2: "\<not> small_constant_dims (expand_limit_of cfg) (butlast lens)"
    if l: "length lens = 2" and v: "int_constant_of (hd lens) = None"
  proof -
    from l obtain a b where "lens = [a, b]"
      by (cases lens; cases "tl lens") auto
    with v variable_length_not_small [of a] show ?thesis by simp
  qed
  from g r2 show ?thesis
    by (auto simp: entry_for_rank_def)
qed

theorem multianewarray_runtime_call_type_witness:
  "(\<exists>p' c T. do_multianewarray example_config
                (multianewarray_parse 2 [variable_length, intcon 3]) = Inr p'
       \<and> runtime_calls (emitted (multianewarray_parse 2 [variable_length, intcon 3]) p') = [c]
       \<and> runtime_entry_of c = Some multianewarray2_Java
       \<and> stack p' = CheckCastPPNode (ProjNode c) T # [Value 9 OtherType]
       \<and> type_ptr T = Some NotNull \<and> type_exact T = Some True
       \<and> known_size T = None
       \<and> type_klass T = Some int_array_3d)
   \<and> (\<exists>p' c T. do_multianewarray example_config
                (multianewarray_parse 2 [intcon 200, intcon 3]) = Inr p'
       \<and> runtime_calls (emitted (multianewarray_parse 2 [intcon 200, intcon 3]) p') = [c]
       \<and> runtime_entry_of c = Some multianewarray2_Java
       \<and> stack p' = CheckCastPPNode (ProjNode c) T # [Value 9 OtherType]
       \<and> type_ptr T = Some NotNull \<and> type_exact T = Some True
       \<and> known_size T = Some 200
       \<and> type_klass T = Some int_array_3d)"
proof -
  have st: "stack (multianewarray_parse 2 ls) = rev ls @ [Value 9 OtherType]" for ls
    by (simp add: multianewarray_parse_def)
  have n: "length [a, b] = get_dimensions (parse_iter (multianewarray_parse 2 [a, b]))" for a b
    by (simp add: multianewarray_parse_def)
  have two: "2 \<le> length [a, b]" for a b :: Node by simp
  have ak: "is_array_klass (get_klass (parse_iter (multianewarray_parse 2 ls)))" for ls
    by (simp add: multianewarray_example_defs)
  have k: "get_klass (parse_iter (multianewarray_parse 2 ls)) = int_array_3d" for ls
    by (simp add: multianewarray_parse_def)
  have wl: "assert_that example_config
              (get_klass_will_link (parse_iter (multianewarray_parse 2 ls)))" for ls
    by (simp add: multianewarray_example_defs assert_that_def)
  have v: "int_constant_of (hd [variable_length, intcon 3]) = None"
    by (simp add: int_constant_of_def variable_length_def)
  have c: "int_constant_of (hd [intcon 200, intcon 3]) = Some 200"
    by (simp add: int_constant_of_def)
  have s: "\<not> small_constant_dims (expand_limit_of example_config) (butlast [intcon 200, intcon 3])"
    by (simp add: small_constant_dims_def predicted_allocations_def dim_con_def find_int_con_def
        expand_limit_of_def example_config_def jint_wrap_def)
  from multianewarray_runtime_call_type [OF st n two ak wl, of variable_length "intcon 3"] v
       multianewarray_runtime_call_type [OF st n two ak wl, of "intcon 200" "intcon 3"] c s
  show ?thesis
    by (simp add: k entry_for_rank_def)
qed

subsection \<open>Storing a double and loading it back\<close>

lemma dstore_rounding_idem: "dstore_rounding (dstore_rounding v) = dstore_rounding v"
  by (cases v) simp_all

lemma stored_at_append:
  "stored_at a (xs @ ys) = (case stored_at a ys of Some v \<Rightarrow> Some v | None \<Rightarrow> stored_at a xs)"
  by (induction xs) (auto split: option.splits)

text \<open>
  C10, as the code has it.  A put of a field of double layout stores the rounding of the
  popped value; a get of the same field of the same object immediately after it, when
  it is not folded to a constant, pushes a load that reads the address just stored to,
  so that what it observes is the rounded value; and rounding a rounded value leaves it
  unchanged.
\<close>

theorem double_put_then_get:
  assumes bt: "layout_type f = T_DOUBLE"
      and nf: "\<not> is_flattened f"
      and st: "value_on_stack T_DOUBLE v rest p"
      and nc: "\<not> folds_to_constant cfg obj f"
  shows "(\<exists>p1. do_put_xxx cfg obj f isf p = Inr p1
            \<and> stored_values (emitted p p1) = [dstore_rounding v])
       \<and> (\<exists>p2 ld. put_then_get cfg obj f isf p = Inr p2
            \<and> stack p2 = top_node # ld # rest
            \<and> load_observes (events p2) ld = Some (dstore_rounding v))
       \<and> dstore_rounding (dstore_rounding v) = dstore_rounding v"
proof -
  from st have s: "stack p = top_node # v # rest"
    by (simp add: value_on_stack_def type2size_def)
  have c: "(if is_constant f \<and> (layout_type f \<noteq> T_OBJECT \<or> type_is_loaded (field_type f))
            then make_constant_from_field cfg f obj else None) = None"
    using nc by (auto simp: folds_to_constant_def)
  have ty: "field_load_type cfg f = Inr (get_const_basic_type T_DOUBLE, False)"
    using bt by (simp add: field_load_type_def Let_def)
  have a: "\<exists>p1. do_put_xxx cfg obj f isf p = Inr p1
            \<and> stored_values (emitted p p1) = [dstore_rounding v]"
    using bt s
    by (simp add: do_put_xxx_def Let_def insert_mem_bar_def basic_plus_adr_def
        pop_def pop_pair_def assert_that_def type2size_def store_to_memory_def
        emitted_def stored_values_def List.map_filter_simps store_target_def)
  have b: "\<exists>p2 ld. put_then_get cfg obj f isf p = Inr p2
            \<and> stack p2 = top_node # ld # rest
            \<and> load_observes (events p2) ld = Some (dstore_rounding v)"
    using bt s c ty nf
    by (simp add: put_then_get_def do_put_xxx_def do_get_xxx_def Let_def insert_mem_bar_def
        basic_plus_adr_def pop_def pop_pair_def assert_that_def type2size_def
        store_to_memory_def make_load_def push_pair_def load_observes_def stored_at_append
        store_target_def)
  from a b dstore_rounding_idem show ?thesis by blast
qed

theorem double_put_then_get_witness:
  "(\<exists>p1. do_put_xxx example_config receiver double_field True double_parse = Inr p1
       \<and> stored_values (emitted double_parse p1) = [dstore_rounding double_value])
   \<and> (\<exists>p2 ld. put_then_get example_config receiver double_field True double_parse = Inr p2
       \<and> stack p2 = top_node # ld # [receiver]
       \<and> load_observes (events p2) ld = Some (dstore_rounding double_value))
   \<and> dstore_rounding (dstore_rounding double_value) = dstore_rounding double_value"
proof -
  have bt: "layout_type double_field = T_DOUBLE" by (simp add: double_field_def)
  have nf: "\<not> is_flattened double_field" by (simp add: double_field_def example_defs)
  have st: "value_on_stack T_DOUBLE double_value [receiver] double_parse"
    by (simp add: value_on_stack_def double_parse_def type2size_def)
  have nc: "\<not> folds_to_constant example_config receiver double_field"
    by (simp add: folds_to_constant_def double_field_def example_defs)
  from double_put_then_get [OF bt nf st nc, of True] show ?thesis .
qed

text \<open>
  C10 as the specification words it fails for a field whose value is folded: the get after
  the put of a constant (stable) double field pushes the known constant and no load, and
  the constant is not the rounding of the value just stored.
\<close>

theorem folded_double_get_counterexample:
  "layout_type stable_double_field = T_DOUBLE
   \<and> stack_after (put_then_get double_folding_config receiver stable_double_field True
                    double_parse)
       = [top_node, known_double, receiver]
   \<and> known_double \<noteq> dstore_rounding double_value
   \<and> load_observes
        (events double_parse
         @ emitted_by double_parse
             (put_then_get double_folding_config receiver stable_double_field True
                double_parse))
        known_double = None"
  by (simp add: put_then_get_def do_put_xxx_def do_get_xxx_def Let_def
      stable_double_field_def double_folding_config_def double_parse_def example_defs
      double_value_def known_double_def receiver_def
      insert_mem_bar_def basic_plus_adr_def pop_def pop_pair_def assert_that_def
      type2size_def store_to_memory_def push_node_def push_pair_def stack_after_def
      emitted_by_def emitted_def load_observes_def)

end
